theory Spec2Isabelle
  imports Complex_Main "HOL-Library.Char_ord" "HOL-Library.List_Lexorder"
begin

section \<open>Python values and errors\<close>

text \<open>
  The exceptions that the modelled functions can raise. Every \<^verbatim>\<open>raise\<close>, failed
  \<^verbatim>\<open>assert\<close> and failing library call of the source is a branch returning \<open>Inl\<close>.
\<close>

datatype py_error = ValueError | KeyError | TypeError | AssertionError | IndexError

section \<open>kwat/vcf/make\_variant\_dict\_consistent.py\<close>

text \<open>
  A variant dictionary maps keys to heterogeneous values. The keys that occur are strings
  and the integer \<open>0\<close>; the values are \<^verbatim>\<open>None\<close>, strings and nested dictionaries.
  A dictionary is a partial function on keys.
\<close>

datatype key = KStr string | KInt int

datatype pyval = PNone | PStr string | PDict "key \<Rightarrow> pyval option"

type_synonym pydict = "key \<Rightarrow> pyval option"

text \<open>\<^verbatim>\<open>vd.get(k)\<close>: the value stored under \<open>k\<close>, or \<^verbatim>\<open>None\<close> when the key is missing.\<close>

definition dict_get :: "pydict \<Rightarrow> key \<Rightarrow> pyval" where
  "dict_get d k = (case d k of None \<Rightarrow> PNone | Some v \<Rightarrow> v)"

text \<open>
  The comprehension \<^verbatim>\<open>{an: vd.get(an) for an in an_}\<close>: the keys are inserted in the
  order of the tuple, a later duplicate overwriting an earlier one.
\<close>

fun dict_comp :: "pydict \<Rightarrow> string list \<Rightarrow> pydict \<Rightarrow> pydict" where
  "dict_comp vd [] acc = acc"
| "dict_comp vd (k # ks) acc = dict_comp vd ks (acc(KStr k \<mapsto> dict_get vd (KStr k)))"

text \<open>
  The function assigns \<^verbatim>\<open>vd["ANN"]\<close> first and \<^verbatim>\<open>vd["sample"]\<close> second; the
  second comprehension reads the dictionary that the first assignment has already changed.
  The Python function has no \<^verbatim>\<open>return\<close>: the model returns \<^verbatim>\<open>None\<close> together with
  the mutated dictionary. (The source's parameters \<^verbatim>\<open>an_\<close> and \<^verbatim>\<open>fo_\<close> are
  \<open>an_keys\<close> and \<open>fo_keys\<close> here.)
\<close>

definition make_variant_dict_consistent ::
  "pydict \<Rightarrow> string list \<Rightarrow> string list \<Rightarrow> pyval \<times> pydict" where
  "make_variant_dict_consistent vd an_keys fo_keys =
     (let vd1 = vd(KStr ''ANN'' \<mapsto>
                  PDict (Map.empty(KInt 0 \<mapsto> PDict (dict_comp vd an_keys Map.empty))));
          vd2 = vd1(KStr ''sample'' \<mapsto>
                  PDict (Map.empty(KInt 0 \<mapsto> PDict (dict_comp vd1 fo_keys Map.empty))))
      in (PNone, vd2))"

text \<open>\<^verbatim>\<open>d[k]\<close> on a value that may be absent: the entry of a nested dictionary.\<close>

fun subscript :: "pyval option \<Rightarrow> key \<Rightarrow> pyval option" where
  "subscript (Some (PDict d)) k = d k"
| "subscript v k = None"

lemma dict_comp_lookup:
  "dict_comp vd ks acc k =
     (case k of
        KStr s \<Rightarrow> (if s \<in> set ks then Some (dict_get vd (KStr s)) else acc k)
      | KInt i \<Rightarrow> acc k)"
  by (induction ks arbitrary: acc) (auto split: key.splits)

lemma dict_comp_empty:
  "dict_comp vd ks Map.empty =
     (\<lambda>k. case k of
        KStr s \<Rightarrow> (if s \<in> set ks then Some (dict_get vd (KStr s)) else None)
      | KInt i \<Rightarrow> None)"
  by (rule ext) (simp add: dict_comp_lookup split: key.splits)

text \<open>
  C10, as stated, fails: with \<^verbatim>\<open>vd = {"ANN": "x"}\<close>, no annotation keys and
  \<^verbatim>\<open>fo_ = ("ANN",)\<close>, the entry \<^verbatim>\<open>vd["sample"][0]["ANN"]\<close> is not the previous
  value \<^verbatim>\<open>"x"\<close> of the key: the comprehension for \<^verbatim>\<open>"sample"\<close> runs after
  \<^verbatim>\<open>vd["ANN"]\<close> has been overwritten and sees the new entry \<^verbatim>\<open>{0: {}}\<close>.
\<close>

theorem make_variant_dict_consistent_counterexample:
  "subscript (subscript
      (snd (make_variant_dict_consistent (Map.empty(KStr ''ANN'' \<mapsto> PStr ''x'')) [] [''ANN''])
         (KStr ''sample'')) (KInt 0)) (KStr ''ANN'')
     \<noteq> Some (dict_get (Map.empty(KStr ''ANN'' \<mapsto> PStr ''x'')) (KStr ''ANN''))"
  by (simp add: make_variant_dict_consistent_def Let_def dict_get_def)

text \<open>
  C10, amended: the call returns nothing and changes exactly the keys \<^verbatim>\<open>"ANN"\<close> and
  \<^verbatim>\<open>"sample"\<close>. Afterwards \<^verbatim>\<open>"ANN"\<close> maps to \<open>{0: d}\<close> where \<open>d\<close> holds, for each
  requested annotation key, the previous value of that key or \<^verbatim>\<open>None\<close> when it was
  missing; and \<^verbatim>\<open>"sample"\<close> maps to \<open>{0: e}\<close> where \<open>e\<close> holds, for each requested
  format field other than \<^verbatim>\<open>"ANN"\<close>, the previous value or \<^verbatim>\<open>None\<close>, and for a
  requested format field \<^verbatim>\<open>"ANN"\<close> the new \<^verbatim>\<open>"ANN"\<close> entry. No missing key is an
  error: the function is total.
\<close>

theorem make_variant_dict_consistent_effect:
  assumes "make_variant_dict_consistent vd an_keys fo_keys = (r, vd')"
  shows "r = PNone \<and>
   (\<exists>ann. vd' (KStr ''ANN'') = Some ann \<and>
      ann = PDict (Map.empty(KInt 0 \<mapsto> PDict (\<lambda>k. case k of
            KStr s \<Rightarrow> (if s \<in> set an_keys then Some (dict_get vd (KStr s)) else None)
          | KInt i \<Rightarrow> None))) \<and>
      vd' (KStr ''sample'') = Some (PDict (Map.empty(KInt 0 \<mapsto> PDict (\<lambda>k. case k of
            KStr s \<Rightarrow> (if s \<in> set fo_keys
                       then Some (if s = ''ANN'' then ann else dict_get vd (KStr s))
                       else None)
          | KInt i \<Rightarrow> None))))) \<and>
   (\<forall>k. k \<noteq> KStr ''ANN'' \<and> k \<noteq> KStr ''sample'' \<longrightarrow> vd' k = vd k)"
proof -
  let ?a = "PDict (Map.empty(KInt 0 \<mapsto> PDict (dict_comp vd an_keys Map.empty)))"
  let ?vd1 = "vd(KStr ''ANN'' \<mapsto> ?a)"
  have r: "r = PNone"
    using assms by (simp add: make_variant_dict_consistent_def Let_def)
  have vd': "vd' = ?vd1(KStr ''sample'' \<mapsto>
      PDict (Map.empty(KInt 0 \<mapsto> PDict (dict_comp ?vd1 fo_keys Map.empty))))"
    using assms by (simp add: make_variant_dict_consistent_def Let_def)
  have e: "dict_comp ?vd1 fo_keys Map.empty = (\<lambda>k. case k of
            KStr s \<Rightarrow> (if s \<in> set fo_keys
                       then Some (if s = ''ANN'' then ?a else dict_get vd (KStr s))
                       else None)
          | KInt i \<Rightarrow> None)"
    unfolding dict_comp_empty
    by (rule ext) (simp add: dict_get_def split: key.splits)
  have frame: "\<forall>k. k \<noteq> KStr ''ANN'' \<and> k \<noteq> KStr ''sample'' \<longrightarrow> vd' k = vd k"
    by (simp add: vd')
  have ann: "vd' (KStr ''ANN'') = Some ?a"
    by (simp add: vd')
  have sample: "vd' (KStr ''sample'') =
      Some (PDict (Map.empty(KInt 0 \<mapsto> PDict (dict_comp ?vd1 fo_keys Map.empty))))"
    by (simp add: vd')
  show ?thesis
  proof (intro conjI exI [of _ ?a])
    show "r = PNone"
      by (rule r)
    show "vd' (KStr ''ANN'') = Some ?a"
      by (rule ann)
    show "?a = PDict (Map.empty(KInt 0 \<mapsto> PDict (\<lambda>k. case k of
            KStr s \<Rightarrow> (if s \<in> set an_keys then Some (dict_get vd (KStr s)) else None)
          | KInt i \<Rightarrow> None)))"
      by (simp only: dict_comp_empty)
    show "vd' (KStr ''sample'') = Some (PDict (Map.empty(KInt 0 \<mapsto> PDict (\<lambda>k. case k of
            KStr s \<Rightarrow> (if s \<in> set fo_keys
                       then Some (if s = ''ANN'' then ?a else dict_get vd (KStr s))
                       else None)
          | KInt i \<Rightarrow> None))))"
      using sample by (simp only: e)
    show "\<forall>k. k \<noteq> KStr ''ANN'' \<and> k \<noteq> KStr ''sample'' \<longrightarrow> vd' k = vd k"
      by (rule frame)
  qed
qed

theorem make_variant_dict_consistent_effect_witness:
  "snd (make_variant_dict_consistent
          (Map.empty(KStr ''effect'' \<mapsto> PStr ''missense'', KStr ''POS'' \<mapsto> PStr ''7''))
          [''effect'', ''impact''] [''GT'']) (KStr ''POS'') = Some (PStr ''7'')"
proof -
  let ?vd = "Map.empty(KStr ''effect'' \<mapsto> PStr ''missense'', KStr ''POS'' \<mapsto> PStr ''7'')"
  let ?res = "make_variant_dict_consistent ?vd [''effect'', ''impact''] [''GT'']"
  have h: "?res = (fst ?res, snd ?res)"
    by simp
  have "\<forall>k. k \<noteq> KStr ''ANN'' \<and> k \<noteq> KStr ''sample'' \<longrightarrow> snd ?res k = ?vd k"
    using make_variant_dict_consistent_effect [OF h] by blast
  then have "snd ?res (KStr ''POS'') = ?vd (KStr ''POS'')"
    by simp
  then show ?thesis
    by simp
qed

section \<open>kraft/dataframe.py: axis pruning\<close>

text \<open>
  A pandas \<^verbatim>\<open>DataFrame\<close> is its row labels, its column labels and its values
  (\<^verbatim>\<open>to_numpy()\<close>, one list per row). A missing value (\<^verbatim>\<open>NaN\<close>, \<^verbatim>\<open>None\<close>: whatever
  \<^verbatim>\<open>isna\<close> accepts) is \<open>None\<close>. The shape is read from the labels, so that a table with
  no rows still has its columns. pandas keeps the values rectangular and as large as the
  labels say: \<open>wf_dataframe\<close>.
\<close>

datatype axis = Axis0 | Axis1

record ('l, 'c, 'v) dataframe =
  index :: "'l list"
  columns :: "'c list"
  matrix :: "'v option list list"

definition shape :: "('l, 'c, 'v) dataframe \<Rightarrow> nat \<times> nat" where
  "shape df = (length (index df), length (columns df))"

definition wf_dataframe :: "('l, 'c, 'v) dataframe \<Rightarrow> bool" where
  "wf_dataframe df \<longleftrightarrow>
     length (matrix df) = length (index df) \<and>
     list_all (\<lambda>row. length row = length (columns df)) (matrix df)"

text \<open>Boolean-mask indexing, \<^verbatim>\<open>xs[is_kept]\<close>: the entries whose flag is set.\<close>

definition select :: "bool list \<Rightarrow> 'a list \<Rightarrow> 'a list" where
  "select kept xs = map snd (filter fst (zip kept xs))"

text \<open>
  The two tests of \<^verbatim>\<open>drop_axis_label\<close> on one vector: \<^verbatim>\<open>(~isna(vector)).sum()\<close> and
  \<^verbatim>\<open>unique(vector[~isna(vector)]).size\<close>. A threshold below 1 is a fraction of the length
  of the opposite axis.
\<close>

definition n_good :: "'v option list \<Rightarrow> nat" where
  "n_good vector = length (filter (\<lambda>v. v \<noteq> None) vector)"

definition n_good_unique :: "'v option list \<Rightarrow> nat" where
  "n_good_unique vector = length (remdups (filter (\<lambda>v. v \<noteq> None) vector))"

definition threshold :: "real \<Rightarrow> nat \<Rightarrow> real" where
  "threshold t n = (if t < 1 then t * real n else t)"

definition is_kept_vector ::
  "real option \<Rightarrow> real option \<Rightarrow> nat \<Rightarrow> 'v option list \<Rightarrow> bool" where
  "is_kept_vector min_good_value min_good_unique_value n vector \<longleftrightarrow>
     (case min_good_value of None \<Rightarrow> True
      | Some t \<Rightarrow> threshold t n \<le> real (n_good vector)) \<and>
     (case min_good_unique_value of None \<Rightarrow> True
      | Some u \<Rightarrow> threshold u n \<le> real (n_good_unique vector))"

text \<open>The slices \<^verbatim>\<open>matrix[:, j]\<close> that \<^verbatim>\<open>apply_along_axis(f, 0, matrix)\<close> visits.\<close>

definition column_vectors :: "'v option list list \<Rightarrow> nat \<Rightarrow> 'v option list list" where
  "column_vectors m n = map (\<lambda>j. map (\<lambda>row. row ! j) m) [0..<n]"

text \<open>
  \<^verbatim>\<open>drop_axis_label\<close>. The \<^verbatim>\<open>assert\<close> fails when both thresholds are \<^verbatim>\<open>None\<close>.
  numpy's \<^verbatim>\<open>apply_along_axis\<close> raises \<^verbatim>\<open>ValueError\<close> ("Cannot apply_along_axis when any
  iteration dimensions are 0") when there is no vector to visit: no row for axis 0, no
  column for axis 1. A vector of length 0 is visited like any other. At least one of the
  two calls is made, since a threshold is given.
\<close>

definition drop_axis_label ::
  "('l, 'c, 'v) dataframe \<Rightarrow> axis \<Rightarrow> real option \<Rightarrow> real option
     \<Rightarrow> py_error + ('l, 'c, 'v) dataframe" where
  "drop_axis_label df ax min_good_value min_good_unique_value =
     (if min_good_value = None \<and> min_good_unique_value = None then Inl AssertionError
      else case ax of
        Axis0 \<Rightarrow>
          if length (matrix df) = 0 then Inl ValueError
          else
            let is_kept = map (is_kept_vector min_good_value min_good_unique_value
                                 (snd (shape df))) (matrix df)
            in Inr (df\<lparr>index := select is_kept (index df),
                        matrix := select is_kept (matrix df)\<rparr>)
      | Axis1 \<Rightarrow>
          if length (columns df) = 0 then Inl ValueError
          else
            let is_kept = map (is_kept_vector min_good_value min_good_unique_value
                                 (fst (shape df)))
                            (column_vectors (matrix df) (length (columns df)))
            in Inr (df\<lparr>columns := select is_kept (columns df),
                        matrix := map (select is_kept) (matrix df)\<rparr>))"

definition other_axis :: "axis \<Rightarrow> axis" where
  "other_axis ax = (case ax of Axis0 \<Rightarrow> Axis1 | Axis1 \<Rightarrow> Axis0)"

text \<open>Labels can only be dropped, which is what makes the loop of \<^verbatim>\<open>drop_axes_label\<close> end.\<close>

lemma length_select_le: "length (select kept xs) \<le> length xs"
proof -
  have "length (select kept xs) \<le> length (zip kept xs)"
    unfolding select_def length_map by (rule length_filter_le)
  also have "\<dots> \<le> length xs"
    by simp
  finally show ?thesis .
qed

lemma drop_axis_label_shape_le:
  assumes "drop_axis_label df ax a b = Inr df'"
  shows "length (index df') \<le> length (index df) \<and> length (columns df') \<le> length (columns df)"
  using assms
  by (auto simp: drop_axis_label_def Let_def length_select_le split: if_splits axis.splits)

text \<open>
  The \<^verbatim>\<open>while True\<close> loop of \<^verbatim>\<open>drop_axes_label\<close>, with its four variables. It
  returns at the first pass, other than the very first, that leaves the shape unchanged.
\<close>

function drop_axes_label_loop ::
  "real option \<Rightarrow> real option \<Rightarrow> ('l, 'c, 'v) dataframe \<Rightarrow> axis \<Rightarrow> nat \<times> nat \<Rightarrow> bool
     \<Rightarrow> py_error + ('l, 'c, 'v) dataframe" where
  "drop_axes_label_loop min_good_value min_good_unique_value df ax shape_before can_return =
     (case drop_axis_label df ax min_good_value min_good_unique_value of
        Inl e \<Rightarrow> Inl e
      | Inr df' \<Rightarrow>
          if can_return \<and> shape_before = shape df' then Inr df'
          else drop_axes_label_loop min_good_value min_good_unique_value df'
                 (other_axis ax) (shape df') True)"
  by pat_completeness auto
termination
proof (relation "measure (\<lambda>(a, b, df, ax, sb, cr).
          2 * (length (index df) + length (columns df)) + (if cr \<and> sb = shape df then 0 else 1))",
       goal_cases)
  case 1
  show ?case by simp
next
  case (2 a b df ax sb cr df')
  from 2(1) have le: "length (index df') \<le> length (index df)"
      "length (columns df') \<le> length (columns df)"
    using drop_axis_label_shape_le [of df ax a b df'] by simp_all
  show ?case
  proof (cases "shape df' = shape df")
    case True
    with 2(2) show ?thesis by (auto simp: shape_def)
  next
    case False
    with le have "length (index df') + length (columns df') < length (index df) + length (columns df)"
      by (auto simp: shape_def)
    then show ?thesis by simp
  qed
qed

text \<open>\<^verbatim>\<open>axis=None\<close> starts with \<^verbatim>\<open>int(shape[0] < shape[1])\<close>.\<close>

definition drop_axes_label ::
  "('l, 'c, 'v) dataframe \<Rightarrow> axis option \<Rightarrow> real option \<Rightarrow> real option
     \<Rightarrow> py_error + ('l, 'c, 'v) dataframe" where
  "drop_axes_label df ax min_good_value min_good_unique_value =
     (let shape_before = shape df;
          ax' = (case ax of
                   None \<Rightarrow> if fst shape_before < snd shape_before then Axis1 else Axis0
                 | Some a \<Rightarrow> a)
      in drop_axes_label_loop min_good_value min_good_unique_value df ax' shape_before False)"

text \<open>Every label of the axis passes both tests: a pass over that axis drops nothing.\<close>

definition all_kept ::
  "('l, 'c, 'v) dataframe \<Rightarrow> axis \<Rightarrow> real option \<Rightarrow> real option \<Rightarrow> bool" where
  "all_kept df ax a b =
     (case ax of
        Axis0 \<Rightarrow> list_all (is_kept_vector a b (snd (shape df))) (matrix df)
      | Axis1 \<Rightarrow> list_all (is_kept_vector a b (fst (shape df)))
                   (column_vectors (matrix df) (length (columns df))))"

subsection \<open>Boolean masks and column vectors\<close>

lemma select_Cons [simp]:
  "select (b # bs) (x # xs) = (if b then x # select bs xs else select bs xs)"
  by (simp add: select_def)

lemma select_Nil [simp]: "select [] xs = []" "select bs [] = []"
  by (simp_all add: select_def)

lemma length_column_vectors [simp]: "length (column_vectors m n) = n"
  by (simp add: column_vectors_def)

lemma select_map_filter: "select (map P xs) xs = filter P xs"
  by (induction xs) simp_all

lemma select_map: "select kept (map f xs) = map f (select kept xs)"
  by (simp add: select_def zip_map2 filter_map o_def case_prod_unfold)

lemma set_select: "set (select kept xs) \<subseteq> set xs"
  by (auto simp: select_def dest: set_zip_rightD)

lemma length_select:
  "length kept = length xs \<Longrightarrow> length (select kept xs) = length (filter (\<lambda>b. b) kept)"
  by (induction kept xs rule: list_induct2) simp_all

lemma select_all:
  "length kept = length xs \<Longrightarrow> list_all (\<lambda>b. b) kept \<Longrightarrow> select kept xs = xs"
  by (induction kept xs rule: list_induct2) simp_all

lemma select_same_length:
  "length kept = length xs \<Longrightarrow> length (select kept xs) = length xs \<Longrightarrow> list_all (\<lambda>b. b) kept"
proof (induction kept xs rule: list_induct2)
  case Nil
  then show ?case by simp
next
  case (Cons b bs x xs)
  have le: "length (select bs xs) \<le> length xs"
    by (rule length_select_le)
  show ?case
  proof (cases b)
    case True
    with Cons show ?thesis by simp
  next
    case False
    with Cons.prems le show ?thesis by simp
  qed
qed

lemma select_nth:
  assumes "length kept = length xs"
  shows "select kept xs = map ((!) xs) (select kept [0..<length xs])"
proof -
  have "select kept xs = select kept (map ((!) xs) [0..<length xs])"
    by (simp add: map_nth)
  then show ?thesis
    by (simp only: select_map)
qed

lemma column_vectors_select:
  assumes rows: "list_all (\<lambda>row. length row = length kept) m"
  shows "column_vectors (map (select kept) m) (length (filter (\<lambda>b. b) kept)) =
         select kept (column_vectors m (length kept))"
proof -
  let ?n = "length kept"
  let ?I = "select kept [0..<?n]"
  let ?k = "length (filter (\<lambda>b. b) kept)"
  have lenI: "length ?I = ?k"
    by (simp add: length_select)
  have row: "select kept r = map ((!) r) ?I" if "r \<in> set m" for r
  proof -
    from rows that have "length r = ?n"
      by (simp add: list_all_iff)
    then show ?thesis
      using select_nth [of kept r] by simp
  qed
  have "column_vectors (map (select kept) m) ?k =
        map (\<lambda>j. map (\<lambda>r. select kept r ! j) m) [0..<?k]"
    by (simp add: column_vectors_def o_def)
  also have "\<dots> = map (\<lambda>j. map (\<lambda>r. r ! (?I ! j)) m) [0..<?k]"
  proof (rule map_cong [OF refl], rule map_cong [OF refl])
    fix j r
    assume "j \<in> set [0..<?k]" and r: "r \<in> set m"
    then have "j < length ?I"
      by (simp add: lenI)
    then show "select kept r ! j = r ! (?I ! j)"
      by (simp add: row [OF r])
  qed
  also have "\<dots> = map (\<lambda>i. map (\<lambda>r. r ! i) m) (map ((!) ?I) [0..<length ?I])"
    by (simp add: lenI o_def)
  also have "\<dots> = map (\<lambda>i. map (\<lambda>r. r ! i) m) ?I"
    by (simp only: map_nth)
  also have "\<dots> = select kept (column_vectors m ?n)"
    by (simp add: column_vectors_def select_map)
  finally show ?thesis .
qed

subsection \<open>One pass\<close>

lemma drop_axis_label_wf:
  assumes "wf_dataframe df" and "drop_axis_label df ax a b = Inr df'"
  shows "wf_dataframe df'"
proof (cases ax)
  case Axis0
  let ?kept = "map (is_kept_vector a b (snd (shape df))) (matrix df)"
  from assms(2) Axis0 have df': "df' = df\<lparr>index := select ?kept (index df),
      matrix := select ?kept (matrix df)\<rparr>"
    by (simp add: drop_axis_label_def Let_def split: if_splits)
  have "length (select ?kept (matrix df)) = length (select ?kept (index df))"
    using assms(1) by (simp add: wf_dataframe_def length_select)
  moreover have "list_all (\<lambda>row. length row = length (columns df)) (select ?kept (matrix df))"
    using assms(1) set_select [of ?kept "matrix df"]
    by (auto simp: wf_dataframe_def list_all_iff)
  ultimately show ?thesis
    by (simp add: df' wf_dataframe_def)
next
  case Axis1
  let ?kept = "map (is_kept_vector a b (fst (shape df)))
                 (column_vectors (matrix df) (length (columns df)))"
  from assms(2) Axis1 have df': "df' = df\<lparr>columns := select ?kept (columns df),
      matrix := map (select ?kept) (matrix df)\<rparr>"
    by (simp add: drop_axis_label_def Let_def split: if_splits)
  have len: "length ?kept = length (columns df)"
    by simp
  have "length (select ?kept row) = length (select ?kept (columns df))"
    if "row \<in> set (matrix df)" for row
  proof -
    from assms(1) that have "length row = length (columns df)"
      by (simp add: wf_dataframe_def list_all_iff)
    then show ?thesis
      using len by (simp add: length_select)
  qed
  then show ?thesis
    using assms(1) by (simp add: df' wf_dataframe_def list_all_iff)
qed

lemma drop_axis_label_all_kept:
  assumes "wf_dataframe df" and "drop_axis_label df ax a b = Inr df'"
  shows "all_kept df' ax a b"
proof (cases ax)
  case Axis0
  let ?P = "is_kept_vector a b (snd (shape df))"
  from assms(2) Axis0 have df': "df' = df\<lparr>index := select (map ?P (matrix df)) (index df),
      matrix := select (map ?P (matrix df)) (matrix df)\<rparr>"
    by (simp add: drop_axis_label_def Let_def split: if_splits)
  show ?thesis
    by (simp add: df' Axis0 all_kept_def shape_def select_map_filter list_all_iff)
next
  case Axis1
  let ?P = "is_kept_vector a b (fst (shape df))"
  let ?cols = "column_vectors (matrix df) (length (columns df))"
  let ?kept = "map ?P ?cols"
  from assms(2) Axis1 have df': "df' = df\<lparr>columns := select ?kept (columns df),
      matrix := map (select ?kept) (matrix df)\<rparr>"
    by (simp add: drop_axis_label_def Let_def split: if_splits)
  have len: "length ?kept = length (columns df)"
    by simp
  have rows: "list_all (\<lambda>row. length row = length ?kept) (matrix df)"
    using assms(1) by (simp add: wf_dataframe_def)
  have "column_vectors (matrix df') (length (columns df')) =
        column_vectors (map (select ?kept) (matrix df)) (length (filter (\<lambda>b. b) ?kept))"
    using len by (simp add: df' length_select)
  also have "\<dots> = select ?kept (column_vectors (matrix df) (length ?kept))"
    by (rule column_vectors_select [OF rows])
  also have "\<dots> = filter ?P ?cols"
    by (simp only: len select_map_filter)
  finally have "column_vectors (matrix df') (length (columns df')) = filter ?P ?cols" .
  moreover have "fst (shape df') = fst (shape df)"
    by (simp add: df' shape_def)
  ultimately show ?thesis
    by (simp add: Axis1 all_kept_def list_all_iff)
qed

lemma drop_axis_label_same_shape:
  assumes "wf_dataframe df" and "drop_axis_label df ax a b = Inr df'"
    and "shape df' = shape df"
  shows "df' = df"
proof (cases ax)
  case Axis0
  let ?kept = "map (is_kept_vector a b (snd (shape df))) (matrix df)"
  from assms(2) Axis0 have df': "df' = df\<lparr>index := select ?kept (index df),
      matrix := select ?kept (matrix df)\<rparr>"
    by (simp add: drop_axis_label_def Let_def split: if_splits)
  have len: "length ?kept = length (index df)" "length ?kept = length (matrix df)"
    using assms(1) by (simp_all add: wf_dataframe_def)
  from assms(3) have "length (select ?kept (index df)) = length (index df)"
    by (simp add: df' shape_def)
  then have all: "list_all (\<lambda>b. b) ?kept"
    using select_same_length [OF len(1)] by simp
  show ?thesis
    by (simp add: df' select_all [OF len(1) all] select_all [OF len(2) all])
next
  case Axis1
  let ?kept = "map (is_kept_vector a b (fst (shape df)))
                 (column_vectors (matrix df) (length (columns df)))"
  from assms(2) Axis1 have df': "df' = df\<lparr>columns := select ?kept (columns df),
      matrix := map (select ?kept) (matrix df)\<rparr>"
    by (simp add: drop_axis_label_def Let_def split: if_splits)
  have len: "length ?kept = length (columns df)"
    by simp
  from assms(3) have "length (select ?kept (columns df)) = length (columns df)"
    by (simp add: df' shape_def)
  then have all: "list_all (\<lambda>b. b) ?kept"
    using select_same_length [OF len] by simp
  have "map (select ?kept) (matrix df) = map (\<lambda>row. row) (matrix df)"
  proof (rule map_cong [OF refl])
    fix row
    assume "row \<in> set (matrix df)"
    with assms(1) have "length ?kept = length row"
      by (simp add: wf_dataframe_def list_all_iff)
    then show "select ?kept row = row"
      using all by (rule select_all)
  qed
  then show ?thesis
    by (simp add: df' select_all [OF len all])
qed

lemma drop_axis_label_fixed:
  assumes "wf_dataframe df" and "all_kept df ax a b"
    and "index df \<noteq> []" and "columns df \<noteq> []" and "a \<noteq> None \<or> b \<noteq> None"
  shows "drop_axis_label df ax a b = Inr df"
proof (cases ax)
  case Axis0
  let ?kept = "map (is_kept_vector a b (snd (shape df))) (matrix df)"
  have len: "length ?kept = length (index df)" "length ?kept = length (matrix df)"
    using assms(1) by (simp_all add: wf_dataframe_def)
  have all: "list_all (\<lambda>b. b) ?kept"
    using assms(2) Axis0 by (simp add: all_kept_def list_all_iff)
  have "matrix df \<noteq> []"
    using assms(1,3) by (auto simp: wf_dataframe_def)
  then show ?thesis
    using assms(5) Axis0
    by (auto simp add: drop_axis_label_def Let_def select_all [OF len(1) all] select_all [OF len(2) all])
next
  case Axis1
  let ?kept = "map (is_kept_vector a b (fst (shape df)))
                 (column_vectors (matrix df) (length (columns df)))"
  have len: "length ?kept = length (columns df)"
    by simp
  have all: "list_all (\<lambda>b. b) ?kept"
    using assms(2) Axis1 by (simp add: all_kept_def list_all_iff)
  have "map (select ?kept) (matrix df) = map (\<lambda>row. row) (matrix df)"
  proof (rule map_cong [OF refl])
    fix row
    assume "row \<in> set (matrix df)"
    with assms(1) have "length ?kept = length row"
      by (simp add: wf_dataframe_def list_all_iff)
    then show "select ?kept row = row"
      using all by (rule select_all)
  qed
  then show ?thesis
    using assms(4,5) Axis1
    by (auto simp add: drop_axis_label_def Let_def select_all [OF len all])
qed

subsection \<open>The loop\<close>

declare drop_axes_label_loop.simps [simp del]

lemma other_axis_twice [simp]: "other_axis (other_axis ax) = ax"
  by (cases ax) (simp_all add: other_axis_def)

lemma all_kept_axes:
  "all_kept df ax a b \<Longrightarrow> all_kept df (other_axis ax) a b \<Longrightarrow>
     all_kept df Axis0 a b \<and> all_kept df Axis1 a b"
  by (cases ax) (simp_all add: other_axis_def)

lemma drop_axes_label_loop_result:
  assumes "drop_axes_label_loop a b df ax sb cr = Inr out"
    and "wf_dataframe df" and "sb = shape df"
    and "cr \<longrightarrow> all_kept df (other_axis ax) a b"
  shows "wf_dataframe out \<and> all_kept out Axis0 a b \<and> all_kept out Axis1 a b \<and>
         (a \<noteq> None \<or> b \<noteq> None)"
  using assms
proof (induction a b df ax sb cr rule: drop_axes_label_loop.induct)
  case (1 a b df ax sb cr)
  from "1.prems"(1) obtain df' where pass: "drop_axis_label df ax a b = Inr df'"
    by (subst (asm) drop_axes_label_loop.simps) (auto split: sum.splits)
  have wf': "wf_dataframe df'"
    using "1.prems"(2) pass by (rule drop_axis_label_wf)
  have kept': "all_kept df' ax a b"
    using "1.prems"(2) pass by (rule drop_axis_label_all_kept)
  show ?case
  proof (cases "cr \<and> sb = shape df'")
    case True
    with "1.prems"(1) pass have out: "out = df'"
      by (subst (asm) drop_axes_label_loop.simps) simp
    from True "1.prems"(3) have "shape df' = shape df"
      by simp
    with "1.prems"(2) pass have same: "df' = df"
      by (rule drop_axis_label_same_shape)
    from True "1.prems"(4) have "all_kept df (other_axis ax) a b"
      by simp
    with kept' same have "all_kept df Axis0 a b \<and> all_kept df Axis1 a b"
      using all_kept_axes by blast
    moreover from pass have "a \<noteq> None \<or> b \<noteq> None"
      by (auto simp: drop_axis_label_def split: if_splits)
    ultimately show ?thesis
      using "1.prems"(2) out same by simp
  next
    case False
    with "1.prems"(1) pass
    have rec: "drop_axes_label_loop a b df' (other_axis ax) (shape df') True = Inr out"
      by (subst (asm) drop_axes_label_loop.simps) auto
    show ?thesis
      using "1.IH" [OF pass False rec wf' refl] kept' by simp
  qed
qed

text \<open>
  C8, as stated, fails on a pruned table with an empty axis. The table with the single
  cell \<^verbatim>\<open>NaN\<close>, pruned with \<^verbatim>\<open>min_good_value=0.5\<close>, loses its row (0.5 * 1 > 0) and
  keeps its column (0.5 * 0 <= 0): the result has shape (0, 1). Pruning that result again
  starts with axis 1, which changes nothing, and then visits axis 0, where
  \<^verbatim>\<open>apply_along_axis\<close> has no row to visit and raises \<^verbatim>\<open>ValueError\<close>.
\<close>

theorem drop_axes_label_rerun_counterexample:
  "drop_axes_label \<lparr>index = [''r''], columns = [''c''], matrix = [[None :: nat option]]\<rparr>
      None (Some (1 / 2)) None
     = Inr \<lparr>index = [], columns = [''c''], matrix = []\<rparr> \<and>
   drop_axes_label \<lparr>index = ([] :: string list), columns = [''c''],
        matrix = ([] :: nat option list list)\<rparr> None (Some (1 / 2)) None
     = Inl ValueError"
  by code_simp

text \<open>
  C8, amended: when \<^verbatim>\<open>drop_axes_label\<close> returns a table that has at least one row and
  one column, running it again on that table with the same thresholds, from either axis or
  with \<^verbatim>\<open>axis=None\<close>, returns the same table unchanged; and the returned table is a
  fixed point of both passes: no row and no column of it fails a threshold.
\<close>

theorem drop_axes_label_idempotent:
  assumes "wf_dataframe df0"
    and "drop_axes_label df0 ax0 a b = Inr df"
    and "index df \<noteq> []" and "columns df \<noteq> []"
  shows "drop_axes_label df ax a b = Inr df \<and>
         all_kept df Axis0 a b \<and> all_kept df Axis1 a b"
proof -
  from assms(2) obtain x0 where
    "drop_axes_label_loop a b df0 x0 (shape df0) False = Inr df"
    by (simp add: drop_axes_label_def Let_def)
  from drop_axes_label_loop_result [OF this assms(1) refl]
  have wf: "wf_dataframe df" and kept: "all_kept df Axis0 a b" "all_kept df Axis1 a b"
    and thr: "a \<noteq> None \<or> b \<noteq> None"
    by simp_all
  have fixed: "drop_axis_label df x a b = Inr df" for x
    using kept by (cases x) (simp_all add: drop_axis_label_fixed [OF wf _ assms(3,4) thr])
  have "drop_axes_label_loop a b df x (shape df) False = Inr df" for x
    by (simp add: drop_axes_label_loop.simps [of a b df x "shape df" False]
        drop_axes_label_loop.simps [of a b df "other_axis x" "shape df" True] fixed)
  then have "drop_axes_label df ax a b = Inr df"
    by (simp add: drop_axes_label_def Let_def)
  with kept show ?thesis
    by simp
qed

theorem drop_axes_label_idempotent_witness:
  "drop_axes_label
     \<lparr>index = [''b'', ''c''], columns = [''x'', ''y''],
      matrix = [[Some (1::nat), Some 2], [Some 3, None]]\<rparr> None (Some 1) None
   = Inr \<lparr>index = [''b'', ''c''], columns = [''x'', ''y''],
          matrix = [[Some 1, Some 2], [Some 3, None]]\<rparr>"
proof -
  let ?df0 = "\<lparr>index = [''a'', ''b'', ''c''], columns = [''x'', ''y''],
      matrix = [[None, None], [Some (1::nat), Some 2], [Some 3, None]]\<rparr>"
  let ?df = "\<lparr>index = [''b'', ''c''], columns = [''x'', ''y''],
      matrix = [[Some (1::nat), Some 2], [Some 3, None]]\<rparr>"
  have wf: "wf_dataframe ?df0"
    by (simp add: wf_dataframe_def)
  have run: "drop_axes_label ?df0 None (Some 1) None = Inr ?df"
    by code_simp
  have "index ?df \<noteq> []" and "columns ?df \<noteq> []"
    by simp_all
  from drop_axes_label_idempotent [OF wf run this] show ?thesis
    by simp
qed

section \<open>kraft/dataframe.py: pivot\<close>

text \<open>
  \<^verbatim>\<open>pivot\<close> reads three columns of a table: row key, column key, value. The model takes
  the rows of \<^verbatim>\<open>dataframe.loc[:, [axis_0, axis_1, value]].to_numpy()\<close>, in their order.
  A value is a float, \<open>None\<close> being \<^verbatim>\<open>NaN\<close>; the result matrix starts as
  \<^verbatim>\<open>full(..., nan)\<close>, so an unfilled cell and a cell holding \<^verbatim>\<open>NaN\<close> are the same.
  The reducer \<^verbatim>\<open>function\<close> is optional (\<^verbatim>\<open>None\<close> by default); calling \<^verbatim>\<open>None\<close> raises
  \<^verbatim>\<open>TypeError\<close>.
\<close>

text \<open>numpy's \<^verbatim>\<open>unique\<close>: the distinct labels, sorted.\<close>

definition unique :: "'a::linorder list \<Rightarrow> 'a list" where
  "unique labels = sort (remdups labels)"

text \<open>
  Modelled from the spec: \<^verbatim>\<open>map_int\<close> is defined in \<^verbatim>\<open>kraft/array.py\<close>, which is not
  among the sources. \<^verbatim>\<open>pivot\<close> uses the first component of its result as the dictionary
  from each label to its position in the array of labels.
\<close>

definition map_int :: "'a list \<Rightarrow> ('a \<rightharpoonup> nat)" where
  "map_int labels = map_of (zip labels [0..<length labels])"

type_synonym reducer = "real option \<Rightarrow> real option \<Rightarrow> real option"

fun pivot_loop ::
  "reducer option \<Rightarrow> ('a \<rightharpoonup> nat) \<Rightarrow> ('b \<rightharpoonup> nat) \<Rightarrow> ('a \<times> 'b \<times> real option) list
     \<Rightarrow> real option list list \<Rightarrow> py_error + real option list list" where
  "pivot_loop function axis_0_label_to_i axis_1_label_to_i [] m = Inr m"
| "pivot_loop function axis_0_label_to_i axis_1_label_to_i
       ((axis_0_label, axis_1_label, v) # rows) m =
     (case axis_0_label_to_i axis_0_label of
        None \<Rightarrow> Inl KeyError
      | Some axis_0_i \<Rightarrow>
         (case axis_1_label_to_i axis_1_label of
            None \<Rightarrow> Inl KeyError
          | Some axis_1_i \<Rightarrow>
             if axis_0_i < length m \<and> axis_1_i < length (m ! axis_0_i) then
               let value_now = m ! axis_0_i ! axis_1_i in
               if value_now = None then
                 pivot_loop function axis_0_label_to_i axis_1_label_to_i rows
                   (m[axis_0_i := (m ! axis_0_i)[axis_1_i := v]])
               else
                 (case function of
                    None \<Rightarrow> Inl TypeError
                  | Some g \<Rightarrow>
                      pivot_loop function axis_0_label_to_i axis_1_label_to_i rows
                        (m[axis_0_i := (m ! axis_0_i)[axis_1_i := g value_now v]]))
             else Inl IndexError))"

definition pivot ::
  "('a::linorder \<times> 'b::linorder \<times> real option) list \<Rightarrow> reducer option
     \<Rightarrow> py_error + ('a, 'b, real) dataframe" where
  "pivot rows function =
     (let axis_0_labels = unique (map fst rows);
          axis_1_labels = unique (map (\<lambda>row. fst (snd row)) rows);
          axis_0_label_to_i = map_int axis_0_labels;
          axis_1_label_to_i = map_int axis_1_labels;
          m = replicate (length axis_0_labels) (replicate (length axis_1_labels) None)
      in case pivot_loop function axis_0_label_to_i axis_1_label_to_i rows m of
           Inl e \<Rightarrow> Inl e
         | Inr m' \<Rightarrow> Inr \<lparr>index = axis_0_labels, columns = axis_1_labels, matrix = m'\<rparr>)"

text \<open>Float addition as a reducer: \<^verbatim>\<open>NaN\<close> plus anything is \<^verbatim>\<open>NaN\<close>.\<close>

definition py_add :: reducer where
  "py_add x y = (case x of None \<Rightarrow> None | Some a \<Rightarrow> (case y of None \<Rightarrow> None | Some b \<Rightarrow> Some (a + b)))"

text \<open>The values of the rows that carry the pair \<open>(a, b)\<close>, in the order of the rows.\<close>

definition values_of :: "('a \<times> 'b \<times> real option) list \<Rightarrow> 'a \<Rightarrow> 'b \<Rightarrow> real option list" where
  "values_of rows a b = map (\<lambda>row. snd (snd row)) (filter (\<lambda>row. fst row = a \<and> fst (snd row) = b) rows)"

text \<open>What one row does to its cell: a cell holding \<^verbatim>\<open>NaN\<close> takes the value, another
  cell takes the reducer's result.\<close>

definition cell_step :: "reducer \<Rightarrow> real option \<Rightarrow> real option \<Rightarrow> real option" where
  "cell_step g value_now v = (if value_now = None then v else g value_now v)"

subsection \<open>Labels and cells\<close>


lemma distinct_unique [simp]: "distinct (unique xs)"
  by (simp add: unique_def)

lemma set_unique [simp]: "set (unique xs) = set xs"
  by (simp add: unique_def)

lemma map_int_nth:
  assumes "distinct ls" and "i < length ls"
  shows "map_int ls (ls ! i) = Some i"
  using map_of_zip_nth [of ls "[0..<length ls]" i] assms
  by (simp add: map_int_def)

lemma map_int_member:
  assumes "distinct ls" and "l \<in> set ls"
  obtains i where "i < length ls" and "ls ! i = l" and "map_int ls l = Some i"
proof -
  from assms(2) obtain i where "i < length ls" and "ls ! i = l"
    by (auto simp: in_set_conv_nth)
  with assms(1) that show thesis
    using map_int_nth by fastforce
qed

text \<open>Writing one cell of a rectangular matrix.\<close>

lemma nth_cell_update:
  assumes "i0 < length m" and "j0 < length (m ! i0)" and "i < length m" and "j < length (m ! i)"
  shows "m[i0 := (m ! i0)[j0 := x]] ! i ! j = (if i = i0 \<and> j = j0 then x else m ! i ! j)"
  using assms by (cases "i = i0"; cases "j = j0") simp_all

lemma rect_cell_update:
  assumes "\<forall>r\<in>set m. length r = n" and "i0 < length m"
  shows "\<forall>r\<in>set (m[i0 := (m ! i0)[j0 := x]]). length r = n"
proof
  fix r
  assume "r \<in> set (m[i0 := (m ! i0)[j0 := x]])"
  then have "r \<in> insert ((m ! i0)[j0 := x]) (set m)"
    using set_update_subset_insert by fast
  with assms show "length r = n"
    by auto
qed

lemma values_of_Cons:
  "values_of ((a, b, v) # rows) a' b' =
     (if a = a' \<and> b = b' then v # values_of rows a' b' else values_of rows a' b')"
  by (simp add: values_of_def)

lemma pivot_loop_reducer:
  assumes "distinct L0" and "distinct L1"
    and "\<forall>row\<in>set rows. fst row \<in> set L0 \<and> fst (snd row) \<in> set L1"
    and "length m = length L0" and "\<forall>r\<in>set m. length r = length L1"
  shows "\<exists>m'. pivot_loop (Some g) (map_int L0) (map_int L1) rows m = Inr m' \<and>
           length m' = length L0 \<and> (\<forall>r\<in>set m'. length r = length L1) \<and>
           (\<forall>i<length L0. \<forall>j<length L1.
              m' ! i ! j = foldl (cell_step g) (m ! i ! j) (values_of rows (L0 ! i) (L1 ! j)))"
  using assms(3-5)
proof (induction rows arbitrary: m)
  case Nil
  then show ?case
    by (simp add: values_of_def)
next
  case (Cons row rows)
  obtain a b v where row: "row = (a, b, v)"
    by (cases row) auto
  from Cons.prems(1) row have "a \<in> set L0" and "b \<in> set L1"
    by simp_all
  from map_int_member [OF assms(1) \<open>a \<in> set L0\<close>] obtain i0 where
    i0: "i0 < length L0" "L0 ! i0 = a" "map_int L0 a = Some i0" .
  from map_int_member [OF assms(2) \<open>b \<in> set L1\<close>] obtain j0 where
    j0: "j0 < length L1" "L1 ! j0 = b" "map_int L1 b = Some j0" .
  have len_i0: "length (m ! i0) = length L1"
    using Cons.prems(2,3) i0(1) by simp
  let ?x = "cell_step g (m ! i0 ! j0) v"
  let ?m = "m[i0 := (m ! i0)[j0 := ?x]]"
  have step: "pivot_loop (Some g) (map_int L0) (map_int L1) (row # rows) m =
      pivot_loop (Some g) (map_int L0) (map_int L1) rows ?m"
    using i0 j0 len_i0 Cons.prems(2) by (simp add: row cell_step_def Let_def)
  have rect: "\<forall>r\<in>set ?m. length r = length L1"
    using Cons.prems(3) i0(1) Cons.prems(2) by (intro rect_cell_update) simp_all
  from Cons.IH [of ?m] Cons.prems(1,2) rect obtain m' where
    m': "pivot_loop (Some g) (map_int L0) (map_int L1) rows ?m = Inr m'"
      "length m' = length L0" "\<forall>r\<in>set m'. length r = length L1"
      "\<forall>i<length L0. \<forall>j<length L1.
          m' ! i ! j = foldl (cell_step g) (?m ! i ! j) (values_of rows (L0 ! i) (L1 ! j))"
    by auto
  have cells: "m' ! i ! j = foldl (cell_step g) (m ! i ! j) (values_of (row # rows) (L0 ! i) (L1 ! j))"
    if "i < length L0" and "j < length L1" for i j
  proof -
    have "length (m ! i) = length L1"
      using Cons.prems(2,3) that(1) by simp
    then have upd: "?m ! i ! j = (if i = i0 \<and> j = j0 then ?x else m ! i ! j)"
      using nth_cell_update [of i0 m j0 i j ?x] i0(1) j0(1) len_i0 that Cons.prems(2) by simp
    have keys: "(a = L0 ! i \<and> b = L1 ! j) = (i = i0 \<and> j = j0)"
      using assms(1,2) i0 j0 that by (auto simp: nth_eq_iff_index_eq)
    show ?thesis
      using m'(4) that upd keys by (simp add: row values_of_Cons)
  qed
  show ?case
    using step m'(1-3) cells by simp
qed

text \<open>Some row with a value is followed by a row with the same pair of keys.\<close>

fun dup :: "('a \<times> 'b \<times> real option) list \<Rightarrow> bool" where
  "dup [] = False"
| "dup (row # rows) =
     ((snd (snd row) \<noteq> None \<and> (\<exists>y\<in>set rows. fst y = fst row \<and> fst (snd y) = fst (snd row)))
      \<or> dup rows)"

lemma dup_iff:
  "dup rows \<longleftrightarrow>
     (\<exists>pre x post. rows = pre @ x # post \<and> snd (snd x) \<noteq> None \<and>
        (\<exists>y\<in>set post. fst y = fst x \<and> fst (snd y) = fst (snd x)))"
proof (induction rows)
  case Nil
  then show ?case by simp
next
  case (Cons row rows)
  show ?case
  proof
    assume "dup (row # rows)"
    then consider "snd (snd row) \<noteq> None \<and> (\<exists>y\<in>set rows. fst y = fst row \<and> fst (snd y) = fst (snd row))"
      | "dup rows"
      by auto
    then show "\<exists>pre x post. row # rows = pre @ x # post \<and> snd (snd x) \<noteq> None \<and>
        (\<exists>y\<in>set post. fst y = fst x \<and> fst (snd y) = fst (snd x))"
    proof cases
      case 1
      then have "row # rows = [] @ row # rows \<and> snd (snd row) \<noteq> None \<and>
          (\<exists>y\<in>set rows. fst y = fst row \<and> fst (snd y) = fst (snd row))"
        by simp
      then show ?thesis by blast
    next
      case 2
      with Cons.IH obtain pre x post where "rows = pre @ x # post" "snd (snd x) \<noteq> None"
          "\<exists>y\<in>set post. fst y = fst x \<and> fst (snd y) = fst (snd x)"
        by blast
      then have "row # rows = (row # pre) @ x # post \<and> snd (snd x) \<noteq> None \<and>
          (\<exists>y\<in>set post. fst y = fst x \<and> fst (snd y) = fst (snd x))"
        by simp
      then show ?thesis by blast
    qed
  next
    assume "\<exists>pre x post. row # rows = pre @ x # post \<and> snd (snd x) \<noteq> None \<and>
        (\<exists>y\<in>set post. fst y = fst x \<and> fst (snd y) = fst (snd x))"
    then obtain pre x post where eq: "row # rows = pre @ x # post" and x: "snd (snd x) \<noteq> None"
        and y: "\<exists>y\<in>set post. fst y = fst x \<and> fst (snd y) = fst (snd x)"
      by blast
    show "dup (row # rows)"
    proof (cases pre)
      case Nil
      with eq x y show ?thesis by auto
    next
      case (Cons p pre')
      with eq have "rows = pre' @ x # post"
        by simp
      with x y Cons.IH have "dup rows"
        by blast
      then show ?thesis by simp
    qed
  qed
qed

lemma pivot_loop_no_reducer:
  assumes "distinct L0" and "distinct L1"
    and "\<forall>row\<in>set rows. fst row \<in> set L0 \<and> fst (snd row) \<in> set L1"
    and "length m = length L0" and "\<forall>r\<in>set m. length r = length L1"
  shows "(if (\<exists>row\<in>set rows. m ! the (map_int L0 (fst row)) ! the (map_int L1 (fst (snd row))) \<noteq> None)
             \<or> dup rows
          then pivot_loop None (map_int L0) (map_int L1) rows m = Inl TypeError
          else pivot_loop None (map_int L0) (map_int L1) rows m =
               pivot_loop (Some g) (map_int L0) (map_int L1) rows m)"
  using assms(3-5)
proof (induction rows arbitrary: m)
  case Nil
  then show ?case by simp
next
  case (Cons row rows)
  obtain a b v where row: "row = (a, b, v)"
    by (cases row) auto
  from Cons.prems(1) row have "a \<in> set L0" and "b \<in> set L1"
    by simp_all
  from map_int_member [OF assms(1) \<open>a \<in> set L0\<close>] obtain i0 where
    i0: "i0 < length L0" "L0 ! i0 = a" "map_int L0 a = Some i0" .
  from map_int_member [OF assms(2) \<open>b \<in> set L1\<close>] obtain j0 where
    j0: "j0 < length L1" "L1 ! j0 = b" "map_int L1 b = Some j0" .
  have len_i0: "length (m ! i0) = length L1"
    using Cons.prems(2,3) i0(1) by simp
  show ?case
  proof (cases "m ! i0 ! j0 = None")
    case False
    then have "pivot_loop None (map_int L0) (map_int L1) (row # rows) m = Inl TypeError"
      using i0 j0 len_i0 Cons.prems(2) by (auto simp add: row Let_def)
    moreover have "m ! the (map_int L0 (fst row)) ! the (map_int L1 (fst (snd row))) \<noteq> None"
      using False i0 j0 by (simp add: row)
    ultimately show ?thesis
      by simp
  next
    case True
    let ?m = "m[i0 := (m ! i0)[j0 := v]]"
    have step: "pivot_loop None (map_int L0) (map_int L1) (row # rows) m =
        pivot_loop None (map_int L0) (map_int L1) rows ?m"
      using True i0 j0 len_i0 Cons.prems(2) by (simp add: row Let_def)
    have step_g: "pivot_loop (Some g) (map_int L0) (map_int L1) (row # rows) m =
        pivot_loop (Some g) (map_int L0) (map_int L1) rows ?m"
      using True i0 j0 len_i0 Cons.prems(2) by (simp add: row Let_def)
    have rect: "\<forall>r\<in>set ?m. length r = length L1"
      using Cons.prems(3) i0(1) Cons.prems(2) by (intro rect_cell_update) simp_all
    have cell: "?m ! the (map_int L0 (fst y)) ! the (map_int L1 (fst (snd y))) =
        (if fst y = a \<and> fst (snd y) = b then v
         else m ! the (map_int L0 (fst y)) ! the (map_int L1 (fst (snd y))))"
      if "y \<in> set rows" for y
    proof -
      from that Cons.prems(1) have "fst y \<in> set L0" and "fst (snd y) \<in> set L1"
        by simp_all
      from map_int_member [OF assms(1) \<open>fst y \<in> set L0\<close>] obtain i where
        i: "i < length L0" "L0 ! i = fst y" "map_int L0 (fst y) = Some i" .
      from map_int_member [OF assms(2) \<open>fst (snd y) \<in> set L1\<close>] obtain j where
        j: "j < length L1" "L1 ! j = fst (snd y)" "map_int L1 (fst (snd y)) = Some j" .
      have "length (m ! i) = length L1"
        using Cons.prems(2,3) i(1) by simp
      then have upd: "?m ! i ! j = (if i = i0 \<and> j = j0 then v else m ! i ! j)"
        using nth_cell_update [of i0 m j0 i j v] i0(1) j0(1) len_i0 i(1) j(1) Cons.prems(2)
        by simp
      have keys: "(fst y = a \<and> fst (snd y) = b) = (i = i0 \<and> j = j0)"
        using assms(1,2) i0 j0 i j by (auto simp: nth_eq_iff_index_eq)
      show ?thesis
        using upd keys i(3) j(3) by simp
    qed
    let ?K = "\<lambda>y. fst y = a \<and> fst (snd y) = b"
    let ?C = "\<lambda>y. m ! the (map_int L0 (fst y)) ! the (map_int L1 (fst (snd y))) \<noteq> None"
    let ?C' = "\<lambda>y. ?m ! the (map_int L0 (fst y)) ! the (map_int L1 (fst (snd y))) \<noteq> None"
    have c1: "?C' y = (if ?K y then v \<noteq> None else ?C y)" if "y \<in> set rows" for y
      using cell [OF that] by simp
    have c2: "\<not> ?C y" if "?K y" for y
      using True i0 j0 that by simp
    have c3: "?K row"
      by (simp add: row)
    have c4: "dup (row # rows) = ((v \<noteq> None \<and> (\<exists>y\<in>set rows. ?K y)) \<or> dup rows)"
      by (auto simp: row)
    have l: "(\<exists>y\<in>set rows. ?C' y) = ((v \<noteq> None \<and> (\<exists>y\<in>set rows. ?K y)) \<or> (\<exists>y\<in>set rows. ?C y))"
      using c1 c2 by metis
    have r: "(\<exists>y\<in>set (row # rows). ?C y) = (\<exists>y\<in>set rows. ?C y)"
      using c2 [OF c3] by simp
    have "((\<exists>y\<in>set rows. ?C' y) \<or> dup rows) = ((\<exists>y\<in>set (row # rows). ?C y) \<or> dup (row # rows))"
      unfolding l r c4 by blast
    then show ?thesis
      using Cons.IH [of ?m] Cons.prems(1,2) rect step step_g by simp
  qed
qed


text \<open>
  C9, as stated, fails when a value is \<^verbatim>\<open>NaN\<close>: the rows \<^verbatim>\<open>["A","X",nan]\<close>,
  \<^verbatim>\<open>["A","X",2]\<close> repeat the pair (A, X), yet the second row is stored directly (the
  cell still tests as \<^verbatim>\<open>NaN\<close>): with addition as the reducer the cell is 2 and not
  \<^verbatim>\<open>reducer(nan, 2) = nan\<close>, and with no reducer the call returns a table instead of
  raising.
\<close>

theorem pivot_nan_counterexample:
  "pivot [(''A'', ''X'', None), (''A'', ''X'', Some 2)] (Some py_add)
     \<noteq> Inr \<lparr>index = [''A''], columns = [''X''], matrix = [[py_add None (Some 2)]]\<rparr> \<and>
   pivot [(''A'', ''X'', None), (''A'', ''X'', Some 2)] None \<noteq> Inl TypeError"
  by code_simp

text \<open>
  C9, amended. With a reducer \<open>g\<close>, \<^verbatim>\<open>pivot\<close> returns the table whose labels are the
  sorted distinct keys and whose cell for a pair is obtained from \<^verbatim>\<open>NaN\<close> by letting
  the rows of that pair act in order: a row that finds \<^verbatim>\<open>NaN\<close> in its cell (the pair
  is new, or what was last stored there, a row's value or the reducer's result, is
  \<^verbatim>\<open>NaN\<close>) stores its value, any other row stores \<open>g existing new\<close>; a pair without
  rows stays \<^verbatim>\<open>NaN\<close>. With no reducer, the call raises \<^verbatim>\<open>TypeError\<close> exactly when
  some row with a value other than \<^verbatim>\<open>NaN\<close> is followed by a row with the same pair;
  otherwise it returns the very table that it returns with a reducer (the reducer is never
  called). With addition as the reducer, the rows \<^verbatim>\<open>["A","X",1]\<close>, \<^verbatim>\<open>["A","X",2]\<close>,
  \<^verbatim>\<open>["B","Y",5]\<close> give the 2 by 2 table with (A, X) = 3, (B, Y) = 5 and the two other
  cells missing.
\<close>

theorem pivot_cells:
  "(\<exists>df. pivot rows (Some g) = Inr df \<and>
      index df = unique (map fst rows) \<and>
      columns df = unique (map (\<lambda>row. fst (snd row)) rows) \<and>
      length (matrix df) = length (index df) \<and>
      (\<forall>i<length (index df). length (matrix df ! i) = length (columns df) \<and>
         (\<forall>j<length (columns df).
            matrix df ! i ! j =
              foldl (cell_step g) None (values_of rows (index df ! i) (columns df ! j))))) \<and>
   ((pivot rows None = Inl TypeError) =
      (\<exists>pre x post. rows = pre @ x # post \<and> snd (snd x) \<noteq> None \<and>
         (\<exists>y\<in>set post. fst y = fst x \<and> fst (snd y) = fst (snd x)))) \<and>
   (pivot rows None \<noteq> Inl TypeError \<longrightarrow> pivot rows None = pivot rows (Some g)) \<and>
   pivot [(''A'', ''X'', Some 1), (''A'', ''X'', Some 2), (''B'', ''Y'', Some 5)] (Some py_add)
     = Inr \<lparr>index = [''A'', ''B''], columns = [''X'', ''Y''],
            matrix = [[Some 3, None], [None, Some 5]]\<rparr>"
proof -
  let ?L0 = "unique (map fst rows)"
  let ?L1 = "unique (map (\<lambda>row. fst (snd row)) rows)"
  let ?m = "replicate (length ?L0) (replicate (length ?L1) (None :: real option))"
  have keys: "\<forall>row\<in>set rows. fst row \<in> set ?L0 \<and> fst (snd row) \<in> set ?L1"
    by simp
  have len: "length ?m = length ?L0" and rect: "\<forall>r\<in>set ?m. length r = length ?L1"
    by simp_all
  have part1: "\<exists>df. pivot rows (Some g) = Inr df \<and>
      index df = ?L0 \<and> columns df = ?L1 \<and>
      length (matrix df) = length (index df) \<and>
      (\<forall>i<length (index df). length (matrix df ! i) = length (columns df) \<and>
         (\<forall>j<length (columns df).
            matrix df ! i ! j =
              foldl (cell_step g) None (values_of rows (index df ! i) (columns df ! j))))"
  proof -
    from pivot_loop_reducer [OF distinct_unique distinct_unique keys len rect, of g]
    obtain m' where m': "pivot_loop (Some g) (map_int ?L0) (map_int ?L1) rows ?m = Inr m'"
      "length m' = length ?L0" "\<forall>r\<in>set m'. length r = length ?L1"
      "\<forall>i<length ?L0. \<forall>j<length ?L1.
          m' ! i ! j = foldl (cell_step g) (?m ! i ! j) (values_of rows (?L0 ! i) (?L1 ! j))"
      by blast
    let ?df = "\<lparr>index = ?L0, columns = ?L1, matrix = m'\<rparr>"
    have "pivot rows (Some g) = Inr ?df"
      using m'(1) by (simp add: pivot_def Let_def)
    moreover have "\<forall>i<length ?L0. length (m' ! i) = length ?L1 \<and>
         (\<forall>j<length ?L1. m' ! i ! j = foldl (cell_step g) None (values_of rows (?L0 ! i) (?L1 ! j)))"
      using m'(2-4) by simp
    ultimately show ?thesis
      using m'(2) by simp
  qed
  have empty: "\<not> (\<exists>row\<in>set rows.
      ?m ! the (map_int ?L0 (fst row)) ! the (map_int ?L1 (fst (snd row))) \<noteq> None)"
  proof
    assume "\<exists>row\<in>set rows.
      ?m ! the (map_int ?L0 (fst row)) ! the (map_int ?L1 (fst (snd row))) \<noteq> None"
    then obtain row where row: "row \<in> set rows"
      and full: "?m ! the (map_int ?L0 (fst row)) ! the (map_int ?L1 (fst (snd row))) \<noteq> None"
      by blast
    from row have "fst row \<in> set ?L0" and "fst (snd row) \<in> set ?L1"
      by simp_all
    from map_int_member [OF distinct_unique \<open>fst row \<in> set ?L0\<close>] obtain i where
      i: "i < length ?L0" "map_int ?L0 (fst row) = Some i" .
    from map_int_member [OF distinct_unique \<open>fst (snd row) \<in> set ?L1\<close>] obtain j where
      j: "j < length ?L1" "map_int ?L1 (fst (snd row)) = Some j" .
    from full i j show False
      by simp
  qed
  have no_reducer: "if dup rows
      then pivot_loop None (map_int ?L0) (map_int ?L1) rows ?m = Inl TypeError
      else pivot_loop None (map_int ?L0) (map_int ?L1) rows ?m =
           pivot_loop (Some g) (map_int ?L0) (map_int ?L1) rows ?m"
    using pivot_loop_no_reducer [OF distinct_unique distinct_unique keys len rect, of g] empty
    by (simp only: simp_thms)
  from part1 have ok: "pivot rows (Some g) \<noteq> Inl TypeError"
    by auto
  have part2: "(pivot rows None = Inl TypeError) = dup rows"
  proof (cases "dup rows")
    case True
    with no_reducer show ?thesis
      by (simp add: pivot_def Let_def)
  next
    case False
    with no_reducer have "pivot rows None = pivot rows (Some g)"
      by (simp add: pivot_def Let_def)
    with ok False show ?thesis
      by simp
  qed
  have part3: "pivot rows None \<noteq> Inl TypeError \<longrightarrow> pivot rows None = pivot rows (Some g)"
  proof
    assume "pivot rows None \<noteq> Inl TypeError"
    with part2 have "\<not> dup rows"
      by simp
    with no_reducer show "pivot rows None = pivot rows (Some g)"
      by (simp add: pivot_def Let_def)
  qed
  have part4: "pivot [(''A'', ''X'', Some 1), (''A'', ''X'', Some 2), (''B'', ''Y'', Some 5)] (Some py_add)
     = Inr \<lparr>index = [''A'', ''B''], columns = [''X'', ''Y''],
            matrix = [[Some 3, None], [None, Some 5]]\<rparr>"
    by code_simp
  show ?thesis
    using part1 part2 part3 part4 unfolding dup_iff by (intro conjI)
qed

theorem pivot_cells_witness:
  "pivot [(''A'', ''X'', Some 1), (''A'', ''X'', Some 2)] None = Inl TypeError \<and>
   pivot [(''A'', ''X'', Some 1), (''B'', ''Y'', Some 5)] None
     = Inr \<lparr>index = [''A'', ''B''], columns = [''X'', ''Y''],
            matrix = [[Some 1, None], [None, Some 5]]\<rparr>"
proof
  let ?rows = "[(''A'', ''X'', Some (1::real)), (''A'', ''X'', Some 2)]"
  have "?rows = [] @ (''A'', ''X'', Some 1) # [(''A'', ''X'', Some 2)] \<and>
      snd (snd (''A'', ''X'', Some (1::real))) \<noteq> None \<and>
      (\<exists>y\<in>set [(''A'', ''X'', Some (2::real))].
          fst y = fst (''A'', ''X'', Some (1::real)) \<and>
          fst (snd y) = fst (snd (''A'', ''X'', Some (1::real))))"
    by simp
  then have "\<exists>pre x post. ?rows = pre @ x # post \<and> snd (snd x) \<noteq> None \<and>
         (\<exists>y\<in>set post. fst y = fst x \<and> fst (snd y) = fst (snd x))"
    by blast
  with pivot_cells [of ?rows] show "pivot ?rows None = Inl TypeError"
    by blast
next
  let ?rows = "[(''A'', ''X'', Some (1::real)), (''B'', ''Y'', Some 5)]"
  note t = pivot_cells [of ?rows py_add]
  have nd: "\<not> dup ?rows"
    by simp
  have "\<not> (\<exists>pre x post. ?rows = pre @ x # post \<and> snd (snd x) \<noteq> None \<and>
         (\<exists>y\<in>set post. fst y = fst x \<and> fst (snd y) = fst (snd x)))"
    using nd dup_iff [of ?rows] by blast
  with conjunct1 [OF conjunct2 [OF t]] have "pivot ?rows None \<noteq> Inl TypeError"
    by blast
  with conjunct1 [OF conjunct2 [OF conjunct2 [OF t]]]
  have "pivot ?rows None = pivot ?rows (Some py_add)"
    by (rule mp)
  also have "\<dots> = Inr \<lparr>index = [''A'', ''B''], columns = [''X'', ''Y''],
            matrix = [[Some 1, None], [None, Some 5]]\<rparr>"
    by code_simp
  finally show "pivot ?rows None
     = Inr \<lparr>index = [''A'', ''B''], columns = [''X'', ''Y''],
            matrix = [[Some 1, None], [None, Some 5]]\<rparr>" .
qed

section \<open>ccal/visualize.py: plot\_onco\_gps\<close>

text \<open>
  \<^verbatim>\<open>plot_onco_gps\<close> draws through matplotlib. The model keeps what the function
  computes before each draw call: the grid axes, the vertical shift of every component
  label, the state colours, the squares of the background and of the mask, the sample
  colours and the effect-plot calls. Floats are exact reals; \<^verbatim>\<open>NaN\<close> is written into
  the model wherever the source can produce it. The convex region test
  \<^verbatim>\<open>convexhull_region.contains_point\<close> is matplotlib's and scipy's: it is a parameter
  \<open>contains_point\<close> of the model.
\<close>

subsection \<open>Grid axes\<close>

text \<open>
  numpy's \<^verbatim>\<open>linspace(start, stop, num)\<close> with the default \<^verbatim>\<open>endpoint=True\<close>:
  \<^verbatim>\<open>arange(0, num) * step + start\<close> with \<^verbatim>\<open>step = (stop - start) / (num - 1)\<close>, the last
  entry then set to \<^verbatim>\<open>stop\<close>; for \<^verbatim>\<open>num = 1\<close> the single entry \<^verbatim>\<open>start\<close>, for
  \<^verbatim>\<open>num = 0\<close> the empty array. The model computes the inner points exactly, where
  numpy rounds the step and every product to a float64: the number of points, the two end
  points and the order of the points are the same, the differences between neighbouring
  points are not (they agree only up to rounding), and nothing below is stated about them.
\<close>

definition linspace :: "real \<Rightarrow> real \<Rightarrow> nat \<Rightarrow> real list" where
  "linspace start stop num =
     (if num = 0 then []
      else if num = 1 then [start]
      else (map (\<lambda>i. real i * ((stop - start) / real (num - 1)) + start) [0..<num])
             [num - 1 := stop])"

text \<open>A two-dimensional numpy array: its shape and its entries.\<close>

record 'a ndarray =
  n_rows :: nat
  n_cols :: nat
  item :: "nat \<Rightarrow> nat \<Rightarrow> 'a"

definition x_grids :: "'a ndarray \<Rightarrow> real list" where
  "x_grids grid_probabilities = linspace 0 1 (n_rows grid_probabilities)"

definition y_grids :: "'a ndarray \<Rightarrow> real list" where
  "y_grids grid_probabilities = linspace 0 1 (n_cols grid_probabilities)"

lemma length_linspace [simp]: "length (linspace start stop num) = num"
  by (simp add: linspace_def)

lemma linspace_nth:
  assumes "2 \<le> n" and "i < n"
  shows "linspace 0 1 n ! i = real i / real (n - 1)"
proof (cases "i = n - 1")
  case True
  with assms show ?thesis
    by (simp add: linspace_def)
next
  case False
  with assms show ?thesis
    by (simp add: linspace_def)
qed

text \<open>
  C2, as stated, fails for a grid with a single row: \<^verbatim>\<open>linspace(0, 1, 1)\<close> is the single
  point 0, so the axis does not end at 1.
\<close>

theorem x_grids_single_row_counterexample:
  "last (x_grids \<lparr>n_rows = 1, n_cols = 1, item = \<lambda>i j. (0::real)\<rparr>) \<noteq> 1"
  by (simp add: x_grids_def linspace_def)

text \<open>
  C2, amended: for a grid of shape (r, c) the two axes are \<^verbatim>\<open>linspace(0, 1, r)\<close> and
  \<^verbatim>\<open>linspace(0, 1, c)\<close> and have exactly r and exactly c points. An axis with at least
  two points starts at 0, ends at 1 and is strictly increasing; an axis with one point is
  the single point 0 and does not reach 1, and an axis with no point is empty. (Equal
  spacing is not asserted: it holds of the float64 points only up to rounding.)
\<close>

theorem grid_axes_linspace:
  "x_grids g = linspace 0 1 (n_rows g) \<and> y_grids g = linspace 0 1 (n_cols g) \<and>
   length (x_grids g) = n_rows g \<and> length (y_grids g) = n_cols g \<and>
   (\<forall>n \<ge> 2. hd (linspace 0 1 n) = 0 \<and> last (linspace 0 1 n) = 1 \<and>
       (\<forall>i j. i < j \<and> j < n \<longrightarrow> linspace 0 1 n ! i < linspace 0 1 n ! j)) \<and>
   linspace 0 1 1 = [0] \<and> linspace 0 1 0 = []"
proof -
  have axis: "hd (linspace 0 1 n) = 0 \<and> last (linspace 0 1 n) = 1 \<and>
       (\<forall>i j. i < j \<and> j < n \<longrightarrow> linspace 0 1 n ! i < linspace 0 1 n ! j)"
    if n: "2 \<le> n" for n
  proof (intro conjI allI impI)
    have "linspace 0 1 n \<noteq> []"
      using n by (auto simp: linspace_def)
    then have "hd (linspace 0 1 n) = linspace 0 1 n ! 0"
      by (simp add: hd_conv_nth)
    then show "hd (linspace 0 1 n) = 0"
      using n by (simp add: linspace_nth)
    have "last (linspace 0 1 n) = linspace 0 1 n ! (n - 1)"
      using \<open>linspace 0 1 n \<noteq> []\<close> by (simp add: last_conv_nth)
    then show "last (linspace 0 1 n) = 1"
      using n by (simp add: linspace_nth)
  next
    fix i j
    assume "i < j \<and> j < n"
    then have "linspace 0 1 n ! i = real i / real (n - 1)"
      and "linspace 0 1 n ! j = real j / real (n - 1)" and "real i < real j"
      using n by (simp_all add: linspace_nth)
    moreover have "0 < real (n - 1)"
      using n by simp
    ultimately show "linspace 0 1 n ! i < linspace 0 1 n ! j"
      by (simp add: divide_strict_right_mono)
  qed
  show ?thesis
    using axis by (simp add: x_grids_def y_grids_def linspace_def)
qed

theorem grid_axes_linspace_witness:
  "linspace 0 1 3 ! 1 < linspace 0 1 3 ! 2 \<and> last (linspace 0 1 3) = 1"
proof -
  have "(2::nat) \<le> 3" and "(1::nat) < 2 \<and> (2::nat) < 3"
    by simp_all
  with grid_axes_linspace [of "\<lparr>n_rows = 3, n_cols = 3, item = \<lambda>i j. (0::real)\<rparr>"]
  show ?thesis
    by blast
qed

subsection \<open>Component labels\<close>

text \<open>
  The loop that places the component labels. \<^verbatim>\<open>component_text_verticalshift\<close> starts
  at -0.03 before the loop and is never reset: every iteration works on the value the
  previous one left. The result lists the shift used for each component; its label is drawn
  at \<open>(x, y + shift)\<close>. A position other than \<^verbatim>\<open>'auto'\<close>, \<^verbatim>\<open>'top'\<close> and
  \<^verbatim>\<open>'bottom'\<close> matches no branch and leaves the shift alone.
\<close>

fun component_text_verticalshifts ::
  "(real \<times> real \<Rightarrow> bool) \<Rightarrow> string \<Rightarrow> real \<Rightarrow> (real \<times> real) list \<Rightarrow> real list" where
  "component_text_verticalshifts contains_point component_text_position shift [] = []"
| "component_text_verticalshifts contains_point component_text_position shift ((x, y) # cs) =
     (let shift' =
        (if component_text_position = ''auto'' then
           (if contains_point (x, y + shift) then shift * (- 1) else shift)
         else if component_text_position = ''top'' then shift * (- 1)
         else if component_text_position = ''bottom'' then shift
         else shift)
      in shift' # component_text_verticalshifts contains_point component_text_position shift' cs)"

definition component_text_positions ::
  "(real \<times> real \<Rightarrow> bool) \<Rightarrow> string \<Rightarrow> (real \<times> real) list \<Rightarrow> (real \<times> real) list" where
  "component_text_positions contains_point component_text_position component_coordinates =
     map2 (\<lambda>(x, y) shift. (x, y + shift)) component_coordinates
       (component_text_verticalshifts contains_point component_text_position (- 3 / 100)
          component_coordinates)"

text \<open>
  The two modes that behave as documented: in \<^verbatim>\<open>'auto'\<close> the current shift is flipped
  exactly when the probed position is inside the region, and \<^verbatim>\<open>'bottom'\<close> keeps the
  initial negative shift for every component.
\<close>

lemma component_text_auto:
  "component_text_verticalshifts contains_point ''auto'' shift ((x, y) # cs) =
     (if contains_point (x, y + shift)
      then - shift # component_text_verticalshifts contains_point ''auto'' (- shift) cs
      else shift # component_text_verticalshifts contains_point ''auto'' shift cs)"
  by (simp add: Let_def)

lemma component_text_bottom:
  "component_text_verticalshifts contains_point ''bottom'' shift cs = replicate (length cs) shift"
  by (induction cs arbitrary: shift) (auto simp: Let_def)

text \<open>
  C6 (code bug): in \<^verbatim>\<open>'top'\<close> mode the shift is multiplied by -1 in every iteration
  instead of being set to a positive value, so the labels alternate: the components with
  an even index get their label above the marker, those with an odd index below it. With
  the three components (0, 0), (1, 0), (0.5, 1) the second label is 0.03 below its marker.
\<close>

theorem component_text_top_alternates:
  "component_text_verticalshifts contains_point ''top'' shift cs =
     map (\<lambda>i. if even i then - shift else shift) [0..<length cs] \<and>
   component_text_verticalshifts contains_point ''top'' (- 3 / 100)
     [(0, 0), (1, 0), (1 / 2, 1)] = [3 / 100, - 3 / 100, 3 / 100]"
proof
  show "component_text_verticalshifts contains_point ''top'' shift cs =
     map (\<lambda>i. if even i then - shift else shift) [0..<length cs]"
  proof (induction cs arbitrary: shift)
    case Nil
    show ?case by simp
  next
    case (Cons c cs)
    obtain x y where c: "c = (x, y)"
      by (cases c)
    have "map (\<lambda>i. if even i then - shift else shift) [0..<length (c # cs)] =
        - shift # map (\<lambda>i. if even (Suc i) then - shift else shift) [0..<length cs]"
      by (simp add: upt_conv_Cons map_Suc_upt [symmetric] del: upt_Suc)
    also have "\<dots> = - shift # map (\<lambda>i. if even i then - (- shift) else - shift) [0..<length cs]"
      by simp
    finally show ?case
      using Cons.IH [of "- shift"] by (simp add: c Let_def)
  qed
  show "component_text_verticalshifts contains_point ''top'' (- 3 / 100)
      [(0, 0), (1, 0), (1 / 2, 1)] = [3 / 100, - 3 / 100, 3 / 100]"
    by (simp add: Let_def)
qed

subsection \<open>Colormaps and state colours\<close>

text \<open>
  A matplotlib colormap is its lookup table of \<open>N\<close> colours and its colour for bad
  values. The module sets only the bad colour (\<^verbatim>\<open>set_bad\<close>), so the colours for values
  under and over the range are matplotlib's defaults: the first and the last entry of the
  table. Called with an integer, the colormap indexes the table, an index above \<open>N - 1\<close>
  giving the over colour and a negative one the under colour; the index has to fit numpy's
  64-bit integer, a larger one is refused with \<^verbatim>\<open>TypeError\<close>. Called with a float \<open>x\<close>,
  it looks at \<open>x * N\<close>: negative gives the under colour, \<open>x = 1\<close> the last entry,
  above that the over colour, anything else the entry \<open>int(x * N)\<close>.
\<close>

record 'c colormap =
  lut :: "'c list"
  bad :: 'c

definition cmap_int :: "'c colormap \<Rightarrow> int \<Rightarrow> py_error + 'c" where
  "cmap_int cmap i =
     (if i < - (2 ^ 63) \<or> 2 ^ 63 \<le> i then Inl TypeError
      else if i > int (length (lut cmap)) - 1 then Inr (lut cmap ! (length (lut cmap) - 1))
      else if i < 0 then Inr (lut cmap ! 0)
      else Inr (lut cmap ! nat i))"

definition cmap_float :: "'c colormap \<Rightarrow> real \<Rightarrow> 'c" where
  "cmap_float cmap x =
     (let n = length (lut cmap); xa = x * real n
      in if xa < 0 then lut cmap ! 0
         else if xa = real n then lut cmap ! (n - 1)
         else if xa > real n then lut cmap ! (n - 1)
         else lut cmap ! nat \<lfloor>xa\<rfloor>)"

text \<open>Python's \<^verbatim>\<open>int()\<close> of a float truncates towards zero.\<close>

definition py_int :: "real \<Rightarrow> int" where
  "py_int x = (if 0 \<le> x then \<lfloor>x\<rfloor> else \<lceil>x\<rceil>)"

text \<open>
  \<^verbatim>\<open>unique_states = sorted(set(states))\<close> and the loop that fills \<^verbatim>\<open>states_color\<close>.
  A state is a Python integer; \<^verbatim>\<open>s / len(unique_states)\<close> is true division. An
  exception of the colormap call leaves the loop.
\<close>

definition unique_states :: "int list \<Rightarrow> int list" where
  "unique_states states = sort (remdups states)"

fun states_color_loop ::
  "'c colormap \<Rightarrow> nat \<Rightarrow> int list \<Rightarrow> (int \<rightharpoonup> 'c) \<Rightarrow> py_error + (int \<rightharpoonup> 'c)" where
  "states_color_loop cmap n [] states_color = Inr states_color"
| "states_color_loop cmap n (s # ss) states_color =
     (case cmap_int cmap (py_int (real_of_int s / real n * real (length (lut cmap)))) of
        Inl e \<Rightarrow> Inl e
      | Inr c \<Rightarrow> states_color_loop cmap n ss (states_color(s \<mapsto> c)))"

definition states_color :: "'c colormap \<Rightarrow> int list \<Rightarrow> py_error + (int \<rightharpoonup> 'c)" where
  "states_color cmap states =
     states_color_loop cmap (length (unique_states states)) (unique_states states) Map.empty"

lemma length_unique_states: "length (unique_states states) = card (set states)"
  by (simp add: unique_states_def length_remdups_card_conv)

lemma set_unique_states: "set (unique_states states) = set states"
  by (simp add: unique_states_def)

lemma py_int_range:
  assumes "\<bar>x\<bar> < 2 ^ 63"
  shows "\<not> (py_int x < - (2 ^ 63) \<or> 2 ^ 63 \<le> py_int x)"
proof (cases "0 \<le> x")
  case True
  with assms have "0 \<le> \<lfloor>x\<rfloor>" and "\<lfloor>x\<rfloor> < 2 ^ 63"
    by (simp_all add: floor_less_iff)
  with True show ?thesis
    by (simp add: py_int_def)
next
  case False
  with assms have "- (2 ^ 63) < x"
    by simp
  then have "- (2 ^ 63) < \<lceil>x\<rceil>"
    by (simp add: less_ceiling_iff)
  moreover from False have "\<lceil>x\<rceil> \<le> 0"
    by (simp add: ceiling_le_iff)
  ultimately show ?thesis
    using False by (simp add: py_int_def)
qed

text \<open>
  The colour that the colormap gives for the truncated index, in terms of the floor: the
  two differ only at a negative quotient, where both get the first colour.
\<close>

lemma cmap_int_py_int:
  assumes "\<bar>x\<bar> < 2 ^ 63" and "lut cmap \<noteq> []"
  shows "cmap_int cmap (py_int x) =
         Inr (if \<lfloor>x\<rfloor> < 0 then hd (lut cmap)
              else if int (length (lut cmap)) \<le> \<lfloor>x\<rfloor> then last (lut cmap)
              else lut cmap ! nat \<lfloor>x\<rfloor>)"
proof -
  note r = py_int_range [OF assms(1)]
  show ?thesis
  proof (cases "0 \<le> x")
    case True
    then have "py_int x = \<lfloor>x\<rfloor>" and "0 \<le> \<lfloor>x\<rfloor>"
      by (simp_all add: py_int_def)
    with r assms(2) show ?thesis
      by (auto simp: cmap_int_def last_conv_nth)
  next
    case False
    define f c where "f = \<lfloor>x\<rfloor>" and "c = \<lceil>x\<rceil>"
    from False have "f < 0" and "c \<le> 0" and pc: "py_int x = c"
      by (simp_all add: f_def c_def py_int_def floor_less_iff ceiling_le_iff)
    from r have "\<not> (c < - (2 ^ 63) \<or> 2 ^ 63 \<le> c)"
      by (simp add: pc)
    with \<open>c \<le> 0\<close> assms(2) have "cmap_int cmap c = Inr (hd (lut cmap))"
      by (cases "c = 0") (auto simp: cmap_int_def hd_conv_nth)
    with \<open>f < 0\<close> show ?thesis
      by (simp add: pc f_def [symmetric])
  qed
qed

lemma states_color_loop_lookup:
  assumes "\<forall>t \<in> set ss.
      cmap_int cmap (py_int (real_of_int t / real n * real (length (lut cmap)))) = Inr (col t)"
  shows "states_color_loop cmap n ss sc =
         Inr (\<lambda>s. if s \<in> set ss then Some (col s) else sc s)"
  using assms
proof (induction ss arbitrary: sc)
  case Nil
  show ?case by simp
next
  case (Cons t ss)
  have "(\<lambda>s. if s \<in> set ss then Some (col s) else (sc(t \<mapsto> col t)) s) =
        (\<lambda>s. if s \<in> set (t # ss) then Some (col s) else sc s)"
    by (rule ext) simp
  with Cons show ?case
    by simp
qed

text \<open>
  C3, as stated, fails for a label whose index is not an index of the palette. With the
  states 1 and 2 and a palette of six colours, the label 2 has the index
  floor(2 / 2 * 6) = 6, one beyond the table; there is no palette entry at that index, and
  the colormap gives its over colour, the last entry.
\<close>

theorem states_color_index_counterexample:
  "\<lfloor>real_of_int 2 / real (card (set [1, 2 :: int])) *
      real (length (lut \<lparr>lut = [''c0'', ''c1'', ''c2'', ''c3'', ''c4'', ''c5''], bad = ''wheat''\<rparr>))\<rfloor>
     = 6 \<and>
   length (lut \<lparr>lut = [''c0'', ''c1'', ''c2'', ''c3'', ''c4'', ''c5''], bad = ''wheat''\<rparr>) = 6 \<and>
   (case states_color \<lparr>lut = [''c0'', ''c1'', ''c2'', ''c3'', ''c4'', ''c5''], bad = ''wheat''\<rparr> [1, 2]
      of Inl e \<Rightarrow> None | Inr sc \<Rightarrow> sc 2) = Some ''c5''"
  by code_simp

text \<open>
  C3, amended: for every state label \<open>s\<close> (the indices fitting a 64-bit integer), the
  colour assigned to \<open>s\<close> is the categorical colormap called with the integer index
  \<open>k = floor (s / n_unique_states * palette_size)\<close>, where \<open>n_unique_states\<close> is the
  number of distinct labels: the palette entry at index \<open>k\<close> when
  \<open>0 \<le> k < palette_size\<close>, the last palette entry when \<open>k\<close> is \<open>palette_size\<close> or
  more, and the first entry when \<open>k\<close> is negative. It is computed from the label's own
  value, not from its rank; two labels with the same index get the same colour. Exactly
  the labels of the samples get a colour.
\<close>

theorem states_color_by_value:
  assumes "s \<in> set states" and "lut cmap \<noteq> []"
    and "\<forall>t \<in> set states.
          \<bar>real_of_int t / real (card (set states)) * real (length (lut cmap))\<bar> < 2 ^ 63"
  shows "\<exists>sc. states_color cmap states = Inr sc \<and> dom sc = set states \<and>
           sc s = Some (let k = \<lfloor>real_of_int s / real (card (set states)) *
                                  real (length (lut cmap))\<rfloor>
                        in if k < 0 then hd (lut cmap)
                           else if int (length (lut cmap)) \<le> k then last (lut cmap)
                           else lut cmap ! nat k) \<and>
           (\<forall>t \<in> set states.
              \<lfloor>real_of_int t / real (card (set states)) * real (length (lut cmap))\<rfloor> =
              \<lfloor>real_of_int s / real (card (set states)) * real (length (lut cmap))\<rfloor>
              \<longrightarrow> sc t = sc s)"
proof -
  let ?n = "card (set states)"
  let ?N = "length (lut cmap)"
  let ?k = "\<lambda>t. \<lfloor>real_of_int t / real ?n * real ?N\<rfloor>"
  let ?col = "\<lambda>t. if ?k t < 0 then hd (lut cmap)
                   else if int ?N \<le> ?k t then last (lut cmap)
                   else lut cmap ! nat (?k t)"
  let ?sc = "\<lambda>t. if t \<in> set (unique_states states) then Some (?col t) else None"
  have "\<forall>t \<in> set (unique_states states).
      cmap_int cmap (py_int (real_of_int t / real (length (unique_states states)) * real ?N))
        = Inr (?col t)"
    using assms(3) cmap_int_py_int [OF _ assms(2)]
    by (simp add: length_unique_states set_unique_states)
  then have run: "states_color cmap states = Inr ?sc"
    unfolding states_color_def by (rule states_color_loop_lookup)
  have "dom ?sc = set states"
    by (auto simp: set_unique_states dom_def)
  moreover have "?sc s = Some (?col s)"
    using assms(1) by (simp add: set_unique_states)
  moreover have "\<forall>t \<in> set states. ?k t = ?k s \<longrightarrow> ?sc t = ?sc s"
    using assms(1) by (simp add: set_unique_states)
  ultimately show ?thesis
    using run unfolding Let_def by blast
qed

theorem states_color_by_value_witness:
  "(case states_color \<lparr>lut = [''c0'', ''c1'', ''c2'', ''c3'', ''c4'', ''c5''], bad = ''wheat''\<rparr>
           [1, 1, 2]
      of Inl e \<Rightarrow> None | Inr sc \<Rightarrow> sc 1) = Some ''c3''"
proof -
  let ?cmap = "\<lparr>lut = [''c0'', ''c1'', ''c2'', ''c3'', ''c4'', ''c5''], bad = ''wheat''\<rparr>"
  have c: "card (set [1, 1, 2 :: int]) = 2"
    by simp
  have "(1::int) \<in> set [1, 1, 2]" and "lut ?cmap \<noteq> []"
    and "\<forall>t \<in> set [1, 1, 2 :: int].
          \<bar>real_of_int t / real (card (set [1, 1, 2 :: int])) * real (length (lut ?cmap))\<bar> < 2 ^ 63"
    unfolding c by simp_all
  from states_color_by_value [OF this]
  obtain sc where sc: "states_color ?cmap [1, 1, 2] = Inr sc"
    and s1: "sc 1 = Some (let k = \<lfloor>real_of_int 1 / real (card (set [1, 1, 2 :: int])) *
                                  real (length (lut ?cmap))\<rfloor>
                        in if k < 0 then hd (lut ?cmap)
                           else if int (length (lut ?cmap)) \<le> k then last (lut ?cmap)
                           else lut ?cmap ! nat k)"
    by blast
  have "\<lfloor>real_of_int 1 / real (card (set [1, 1, 2 :: int])) * real (length (lut ?cmap))\<rfloor> = 3"
    unfolding c by simp
  with s1 have "sc 1 = Some ''c3''"
    by (simp add: Let_def)
  with sc show ?thesis
    by simp
qed

subsection \<open>Background and mask\<close>

text \<open>
  Indexing \<^verbatim>\<open>a[i, j]\<close> with non-negative indices raises \<^verbatim>\<open>IndexError\<close> outside the
  shape; \<^verbatim>\<open>a.min()\<close> and \<^verbatim>\<open>a.max()\<close> of an array without entries raise
  \<^verbatim>\<open>ValueError\<close>.
\<close>

definition getitem :: "'a ndarray \<Rightarrow> nat \<Rightarrow> nat \<Rightarrow> py_error + 'a" where
  "getitem a i j = (if i < n_rows a \<and> j < n_cols a then Inr (item a i j) else Inl IndexError)"

definition flat :: "'a ndarray \<Rightarrow> 'a list" where
  "flat a = concat (map (\<lambda>i. map (\<lambda>j. item a i j) [0..<n_cols a]) [0..<n_rows a])"

definition array_min :: "real ndarray \<Rightarrow> py_error + real" where
  "array_min a = (if flat a = [] then Inl ValueError else Inr (Min (set (flat a))))"

definition array_max :: "real ndarray \<Rightarrow> py_error + real" where
  "array_max a = (if flat a = [] then Inl ValueError else Inr (Max (set (flat a))))"

text \<open>The cells in the order of the two nested \<^verbatim>\<open>for\<close> loops.\<close>

definition grid_cells :: "'a ndarray \<Rightarrow> (nat \<times> nat) list" where
  "grid_cells a = concat (map (\<lambda>i. map (\<lambda>j. (i, j)) [0..<n_cols a]) [0..<n_rows a])"

text \<open>One \<^verbatim>\<open>ax_map.plot\<close> call of the background: the cell, its position, colour, alpha.\<close>

record 'c background_square =
  bg_cell :: "nat \<times> nat"
  bg_xy :: "real \<times> real"
  bg_color :: 'c
  bg_alpha :: real

record mask_square =
  mask_cell :: "nat \<times> nat"
  mask_xy :: "real \<times> real"

text \<open>
  The alpha of a background square is \<^verbatim>\<open>min(background_max_alpha, (p - p_min) / range)\<close>.
  When the range is 0, every \<open>p\<close> equals the minimum and numpy's division gives
  \<^verbatim>\<open>NaN\<close> (0.0 / 0.0, with a warning); Python's \<^verbatim>\<open>min\<close> keeps its first argument when the
  second is \<^verbatim>\<open>NaN\<close>.
\<close>

definition background_alpha :: "real \<Rightarrow> real \<Rightarrow> real \<Rightarrow> real \<Rightarrow> real" where
  "background_alpha background_max_alpha p grid_probabilities_min grid_probabilities_range =
     (if grid_probabilities_range = 0 then background_max_alpha
      else min background_max_alpha
             ((p - grid_probabilities_min) / grid_probabilities_range))"

text \<open>
  The body of the background loops over the cells still to visit. A grid state that is not
  a key of \<^verbatim>\<open>states_color\<close> (no sample has that state) raises \<^verbatim>\<open>KeyError\<close>.
\<close>

fun plot_background_cells ::
  "(real \<times> real \<Rightarrow> bool) \<Rightarrow> (int \<rightharpoonup> 'c) \<Rightarrow> real ndarray \<Rightarrow> int ndarray \<Rightarrow> real
     \<Rightarrow> real \<Rightarrow> real \<Rightarrow> (nat \<times> nat) list \<Rightarrow> py_error + 'c background_square list" where
  "plot_background_cells contains_point sc gp gs background_max_alpha mn rng [] = Inr []"
| "plot_background_cells contains_point sc gp gs background_max_alpha mn rng ((i, j) # cells) =
     (if contains_point (x_grids gp ! i, y_grids gp ! j) then
        (case getitem gs i j of
           Inl e \<Rightarrow> Inl e
         | Inr s \<Rightarrow>
            (case sc s of
               None \<Rightarrow> Inl KeyError
             | Some c \<Rightarrow>
                (case plot_background_cells contains_point sc gp gs background_max_alpha
                        mn rng cells of
                   Inl e \<Rightarrow> Inl e
                 | Inr squares \<Rightarrow>
                     Inr (\<lparr>bg_cell = (i, j), bg_xy = (x_grids gp ! i, y_grids gp ! j),
                           bg_color = c,
                           bg_alpha = background_alpha background_max_alpha (item gp i j) mn rng\<rparr>
                          # squares))))
      else plot_background_cells contains_point sc gp gs background_max_alpha mn rng cells)"

definition plot_background ::
  "(real \<times> real \<Rightarrow> bool) \<Rightarrow> (int \<rightharpoonup> 'c) \<Rightarrow> real ndarray \<Rightarrow> int ndarray \<Rightarrow> real \<Rightarrow> real
     \<Rightarrow> py_error + 'c background_square list" where
  "plot_background contains_point sc gp gs background_markersize background_max_alpha =
     (if background_markersize > 0 then
        (case array_min gp of
           Inl e \<Rightarrow> Inl e
         | Inr grid_probabilities_min \<Rightarrow>
            (case array_max gp of
               Inl e \<Rightarrow> Inl e
             | Inr grid_probabilities_max \<Rightarrow>
                 plot_background_cells contains_point sc gp gs background_max_alpha
                   grid_probabilities_min (grid_probabilities_max - grid_probabilities_min)
                   (grid_cells gp)))
      else Inr [])"

definition plot_background_mask ::
  "(real \<times> real \<Rightarrow> bool) \<Rightarrow> real ndarray \<Rightarrow> real \<Rightarrow> mask_square list" where
  "plot_background_mask contains_point gp background_mask_markersize =
     (if background_mask_markersize > 0 then
        map (\<lambda>(i, j). \<lparr>mask_cell = (i, j), mask_xy = (x_grids gp ! i, y_grids gp ! j)\<rparr>)
          (filter (\<lambda>(i, j). \<not> contains_point (x_grids gp ! i, y_grids gp ! j)) (grid_cells gp))
      else [])"

text \<open>The two layers in the order of the source: an error in the background stops the
  function before the mask is drawn.\<close>

definition plot_layers ::
  "(real \<times> real \<Rightarrow> bool) \<Rightarrow> (int \<rightharpoonup> 'c) \<Rightarrow> real ndarray \<Rightarrow> int ndarray \<Rightarrow> real \<Rightarrow> real
     \<Rightarrow> real \<Rightarrow> py_error + ('c background_square list \<times> mask_square list)" where
  "plot_layers contains_point sc gp gs background_markersize background_mask_markersize
       background_max_alpha =
     (case plot_background contains_point sc gp gs background_markersize background_max_alpha of
        Inl e \<Rightarrow> Inl e
      | Inr squares \<Rightarrow>
          Inr (squares, plot_background_mask contains_point gp background_mask_markersize))"

lemma grid_cells_iff: "(i, j) \<in> set (grid_cells a) \<longleftrightarrow> i < n_rows a \<and> j < n_cols a"
  by (force simp: grid_cells_def)

lemma plot_background_cells_cells:
  "plot_background_cells cp sc gp gs bma mn rng cells = Inr squares \<Longrightarrow>
     map bg_cell squares = filter (\<lambda>(i, j). cp (x_grids gp ! i, y_grids gp ! j)) cells"
  by (induction cells arbitrary: squares) (auto split: if_splits sum.splits option.splits)

lemma plot_background_cells_squares:
  "plot_background_cells cp sc gp gs bma mn rng cells = Inr squares \<Longrightarrow> sq \<in> set squares \<Longrightarrow>
     bg_alpha sq = background_alpha bma (item gp (fst (bg_cell sq)) (snd (bg_cell sq))) mn rng \<and>
     bg_xy sq = (x_grids gp ! fst (bg_cell sq), y_grids gp ! snd (bg_cell sq)) \<and>
     sc (item gs (fst (bg_cell sq)) (snd (bg_cell sq))) = Some (bg_color sq)"
  by (induction cells arbitrary: squares)
     (auto simp: getitem_def split: if_splits sum.splits option.splits)

lemma plot_background_enabled:
  assumes "plot_background cp sc gp gs bms bma = Inr squares" and "bms > 0"
  shows "flat gp \<noteq> [] \<and>
         plot_background_cells cp sc gp gs bma (Min (set (flat gp)))
           (Max (set (flat gp)) - Min (set (flat gp))) (grid_cells gp) = Inr squares"
  using assms
  by (auto simp: plot_background_def array_min_def array_max_def split: if_splits)

lemma plot_background_cell_set:
  assumes "plot_background cp sc gp gs bms bma = Inr squares" and "bms > 0"
  shows "bg_cell ` set squares =
         {(i, j). i < n_rows gp \<and> j < n_cols gp \<and> cp (x_grids gp ! i, y_grids gp ! j)}"
proof -
  from plot_background_enabled [OF assms]
  have "map bg_cell squares =
      filter (\<lambda>(i, j). cp (x_grids gp ! i, y_grids gp ! j)) (grid_cells gp)"
    by (auto dest: plot_background_cells_cells)
  then have "set (map bg_cell squares) =
      set (filter (\<lambda>(i, j). cp (x_grids gp ! i, y_grids gp ! j)) (grid_cells gp))"
    by simp
  then show ?thesis
    by (auto simp: grid_cells_iff)
qed

lemma plot_background_mask_cell_set:
  assumes "mms > 0"
  shows "mask_cell ` set (plot_background_mask cp gp mms) =
         {(i, j). i < n_rows gp \<and> j < n_cols gp \<and> \<not> cp (x_grids gp ! i, y_grids gp ! j)}"
  using assms by (force simp: plot_background_mask_def grid_cells_iff image_iff)

text \<open>
  C1: when both layers are drawn, a cell of the grid is drawn by the background exactly
  when its grid point is inside the region and by the mask exactly when it is outside; so
  every cell of the grid is in exactly one of the two sets.
\<close>

theorem background_mask_complement:
  assumes "plot_layers cp sc gp gs bms mms bma = Inr (squares, masks)"
    and "bms > 0" and "mms > 0" and "i < n_rows gp" and "j < n_cols gp"
  shows "((i, j) \<in> bg_cell ` set squares \<longleftrightarrow> cp (x_grids gp ! i, y_grids gp ! j)) \<and>
         ((i, j) \<in> mask_cell ` set masks \<longleftrightarrow> \<not> cp (x_grids gp ! i, y_grids gp ! j)) \<and>
         ((i, j) \<in> bg_cell ` set squares \<longleftrightarrow> (i, j) \<notin> mask_cell ` set masks)"
proof -
  from assms(1) have bg: "plot_background cp sc gp gs bms bma = Inr squares"
    and mk: "masks = plot_background_mask cp gp mms"
    by (auto simp: plot_layers_def split: sum.splits)
  have "bg_cell ` set squares =
      {(i, j). i < n_rows gp \<and> j < n_cols gp \<and> cp (x_grids gp ! i, y_grids gp ! j)}"
    using bg assms(2) by (rule plot_background_cell_set)
  moreover have "mask_cell ` set masks =
      {(i, j). i < n_rows gp \<and> j < n_cols gp \<and> \<not> cp (x_grids gp ! i, y_grids gp ! j)}"
    unfolding mk using assms(3) by (rule plot_background_mask_cell_set)
  ultimately show ?thesis
    using assms(4,5) by simp
qed

theorem background_mask_complement_witness:
  "(1, 1) \<in> bg_cell ` set [\<lparr>bg_cell = (1, 1), bg_xy = (1 / 2, 1 / 2), bg_color = ''c0'', bg_alpha = 1 / 4\<rparr>] \<and>
   (1, 1) \<notin> mask_cell ` set
           [\<lparr>mask_cell = (0, 0), mask_xy = (0, 0)\<rparr>,
            \<lparr>mask_cell = (0, 1), mask_xy = (0, 1 / 2)\<rparr>,
            \<lparr>mask_cell = (0, 2), mask_xy = (0, 1)\<rparr>,
            \<lparr>mask_cell = (1, 0), mask_xy = (1 / 2, 0)\<rparr>,
            \<lparr>mask_cell = (1, 2), mask_xy = (1 / 2, 1)\<rparr>,
            \<lparr>mask_cell = (2, 0), mask_xy = (1, 0)\<rparr>,
            \<lparr>mask_cell = (2, 1), mask_xy = (1, 1 / 2)\<rparr>,
            \<lparr>mask_cell = (2, 2), mask_xy = (1, 1)\<rparr>]"
proof -
  let ?cp = "(\<lambda>(x, y). 0 < y \<and> y < 2 * x \<and> y < 2 - 2 * x) :: real \<times> real \<Rightarrow> bool"
  let ?gp = "\<lparr>n_rows = 3, n_cols = 3,
        item = \<lambda>i j. [[0, 1, 1], [1, 1 / 4, 1], [1, 1, 1 :: real]] ! i ! j\<rparr>"
  let ?gs = "\<lparr>n_rows = 3, n_cols = 3, item = \<lambda>i j. (0::int)\<rparr>"
  have run: "plot_layers ?cp (Map.empty(0 \<mapsto> ''c0'')) ?gp ?gs 1 1 (1 / 2) =
      Inr ([\<lparr>bg_cell = (1, 1), bg_xy = (1 / 2, 1 / 2), bg_color = ''c0'', bg_alpha = 1 / 4\<rparr>],
           [\<lparr>mask_cell = (0, 0), mask_xy = (0, 0)\<rparr>,
            \<lparr>mask_cell = (0, 1), mask_xy = (0, 1 / 2)\<rparr>,
            \<lparr>mask_cell = (0, 2), mask_xy = (0, 1)\<rparr>,
            \<lparr>mask_cell = (1, 0), mask_xy = (1 / 2, 0)\<rparr>,
            \<lparr>mask_cell = (1, 2), mask_xy = (1 / 2, 1)\<rparr>,
            \<lparr>mask_cell = (2, 0), mask_xy = (1, 0)\<rparr>,
            \<lparr>mask_cell = (2, 1), mask_xy = (1, 1 / 2)\<rparr>,
            \<lparr>mask_cell = (2, 2), mask_xy = (1, 1)\<rparr>])"
    by code_simp
  have "(0::real) < 1" and "(1::nat) < n_rows ?gp" and "(1::nat) < n_cols ?gp"
    by simp_all
  from background_mask_complement [OF run this(1) this(1) this(2) this(3)]
  have "(1, 1) \<in> bg_cell ` set [\<lparr>bg_cell = (1, 1), bg_xy = (1 / 2, 1 / 2), bg_color = ''c0'', bg_alpha = 1 / 4\<rparr>]
      \<longleftrightarrow> ?cp (x_grids ?gp ! 1, y_grids ?gp ! 1)"
    and "(1, 1) \<in> bg_cell ` set [\<lparr>bg_cell = (1, 1), bg_xy = (1 / 2, 1 / 2), bg_color = ''c0'', bg_alpha = 1 / 4\<rparr>]
      \<longleftrightarrow> (1, 1) \<notin> mask_cell ` set
           [\<lparr>mask_cell = (0, 0), mask_xy = (0, 0)\<rparr>,
            \<lparr>mask_cell = (0, 1), mask_xy = (0, 1 / 2)\<rparr>,
            \<lparr>mask_cell = (0, 2), mask_xy = (0, 1)\<rparr>,
            \<lparr>mask_cell = (1, 0), mask_xy = (1 / 2, 0)\<rparr>,
            \<lparr>mask_cell = (1, 2), mask_xy = (1 / 2, 1)\<rparr>,
            \<lparr>mask_cell = (2, 0), mask_xy = (1, 0)\<rparr>,
            \<lparr>mask_cell = (2, 1), mask_xy = (1, 1 / 2)\<rparr>,
            \<lparr>mask_cell = (2, 2), mask_xy = (1, 1)\<rparr>]"
    by blast+
  moreover have "?cp (x_grids ?gp ! 1, y_grids ?gp ! 1)"
    by (simp add: x_grids_def y_grids_def linspace_def)
  ultimately show ?thesis
    by blast
qed

text \<open>
  C5, as stated, fails: the alpha is not the rescaled probability multiplied by
  \<^verbatim>\<open>background_max_alpha\<close>. Take the 3 by 3 grid whose only point strictly inside the
  triangle (0, 0), (1, 0), (0.5, 1) is the middle one, with probability 0.25 there, 0 in one
  corner and 1 elsewhere, and \<^verbatim>\<open>background_max_alpha = 0.5\<close>: the square of the middle
  cell has alpha \<^verbatim>\<open>min(0.5, 0.25) = 0.25\<close>, where the claim's formula gives
  0.5 * 0.25 = 0.125.
\<close>

theorem background_alpha_counterexample:
  "plot_background (\<lambda>(x, y). 0 < y \<and> y < 2 * x \<and> y < 2 - 2 * x) (Map.empty(0 \<mapsto> ''c0''))
       \<lparr>n_rows = 3, n_cols = 3,
        item = \<lambda>i j. [[0, 1, 1], [1, 1 / 4, 1], [1, 1, 1 :: real]] ! i ! j\<rparr>
       \<lparr>n_rows = 3, n_cols = 3, item = \<lambda>i j. (0::int)\<rparr> 1 (1 / 2)
     = Inr [\<lparr>bg_cell = (1, 1), bg_xy = (1 / 2, 1 / 2), bg_color = ''c0'', bg_alpha = 1 / 4\<rparr>] \<and>
   (1 / 2) * ((1 / 4 - 0) / (1 - 0)) \<noteq> (1 / 4 :: real)"
  by code_simp

text \<open>
  C5, amended: when the background is enabled and drawn, every grid cell inside the region
  gets a square, every cell outside is skipped, and the alpha of a cell's square is its
  probability rescaled into [0, 1] by the grid's global minimum and maximum and capped at
  \<^verbatim>\<open>background_max_alpha\<close>: \<open>min background_max_alpha ((p - p_min) / (p_max - p_min))\<close>.
  (When all probabilities are equal the alpha is \<^verbatim>\<open>background_max_alpha\<close>.)
\<close>

theorem background_alpha_capped:
  assumes "plot_background cp sc gp gs bms bma = Inr squares"
    and "bms > 0" and "i < n_rows gp" and "j < n_cols gp"
  shows "(cp (x_grids gp ! i, y_grids gp ! j) \<longrightarrow> (\<exists>sq \<in> set squares. bg_cell sq = (i, j))) \<and>
         (\<not> cp (x_grids gp ! i, y_grids gp ! j) \<longrightarrow> (\<forall>sq \<in> set squares. bg_cell sq \<noteq> (i, j))) \<and>
         (\<forall>sq \<in> set squares. bg_cell sq = (i, j) \<longrightarrow>
            bg_alpha sq =
              (if Max (set (flat gp)) = Min (set (flat gp)) then bma
               else min bma ((item gp i j - Min (set (flat gp))) /
                             (Max (set (flat gp)) - Min (set (flat gp))))))"
proof -
  have cells: "bg_cell ` set squares =
      {(i, j). i < n_rows gp \<and> j < n_cols gp \<and> cp (x_grids gp ! i, y_grids gp ! j)}"
    using assms(1,2) by (rule plot_background_cell_set)
  have inside: "\<exists>sq \<in> set squares. bg_cell sq = (i, j)" if "cp (x_grids gp ! i, y_grids gp ! j)"
  proof -
    from that assms(3,4) have "(i, j) \<in> bg_cell ` set squares"
      unfolding cells by simp
    then show ?thesis
      by (auto simp: image_iff)
  qed
  have outside: "\<forall>sq \<in> set squares. bg_cell sq \<noteq> (i, j)" if "\<not> cp (x_grids gp ! i, y_grids gp ! j)"
  proof
    fix sq
    assume "sq \<in> set squares"
    then have "bg_cell sq \<in> bg_cell ` set squares"
      by simp
    with that show "bg_cell sq \<noteq> (i, j)"
      unfolding cells by auto
  qed
  have alpha: "bg_alpha sq =
      (if Max (set (flat gp)) = Min (set (flat gp)) then bma
       else min bma ((item gp i j - Min (set (flat gp))) /
                     (Max (set (flat gp)) - Min (set (flat gp)))))"
    if "sq \<in> set squares" and "bg_cell sq = (i, j)" for sq
    using plot_background_cells_squares [OF conjunct2 [OF plot_background_enabled [OF assms(1,2)]] that(1)]
      that(2)
    by (simp add: background_alpha_def)
  show ?thesis
    using inside outside alpha by blast
qed

theorem background_alpha_capped_witness:
  "bg_alpha (projr (plot_background (\<lambda>(x, y). 0 < y \<and> y < 2 * x \<and> y < 2 - 2 * x) (Map.empty(0 \<mapsto> ''c0''))
       \<lparr>n_rows = 3, n_cols = 3,
        item = \<lambda>i j. [[0, 1, 1], [1, 1 / 4, 1], [1, 1, 1 :: real]] ! i ! j\<rparr>
       \<lparr>n_rows = 3, n_cols = 3, item = \<lambda>i j. (0::int)\<rparr> 1 (1 / 2)) ! 0)
     = min (1 / 2) ((1 / 4 - 0) / (1 - 0))"
proof -
  let ?cp = "(\<lambda>(x, y). 0 < y \<and> y < 2 * x \<and> y < 2 - 2 * x) :: real \<times> real \<Rightarrow> bool"
  let ?gp = "\<lparr>n_rows = 3, n_cols = 3,
        item = \<lambda>i j. [[0, 1, 1], [1, 1 / 4, 1], [1, 1, 1 :: real]] ! i ! j\<rparr>"
  let ?gs = "\<lparr>n_rows = 3, n_cols = 3, item = \<lambda>i j. (0::int)\<rparr>"
  let ?sq = "\<lparr>bg_cell = (1, 1), bg_xy = (1 / 2, 1 / 2), bg_color = ''c0'', bg_alpha = 1 / 4\<rparr>"
  have run: "plot_background ?cp (Map.empty(0 \<mapsto> ''c0'')) ?gp ?gs 1 (1 / 2) = Inr [?sq]"
    by code_simp
  have "(0::real) < 1" and "(1::nat) < n_rows ?gp" and "(1::nat) < n_cols ?gp"
    by simp_all
  from background_alpha_capped [OF run this]
  have "\<forall>sq \<in> set [?sq]. bg_cell sq = (1, 1) \<longrightarrow>
      bg_alpha sq =
        (if Max (set (flat ?gp)) = Min (set (flat ?gp)) then 1 / 2
         else min (1 / 2) ((item ?gp 1 1 - Min (set (flat ?gp))) /
                           (Max (set (flat ?gp)) - Min (set (flat ?gp)))))"
    by blast
  moreover have "?sq \<in> set [?sq]" and "bg_cell ?sq = (1, 1)"
    by simp_all
  ultimately have "bg_alpha ?sq =
        (if Max (set (flat ?gp)) = Min (set (flat ?gp)) then 1 / 2
         else min (1 / 2) ((item ?gp 1 1 - Min (set (flat ?gp))) /
                           (Max (set (flat ?gp)) - Min (set (flat ?gp)))))"
    by blast
  moreover have "flat ?gp = [0, 1, 1, 1, 1 / 4, 1, 1, 1, 1]"
    by code_simp
  ultimately show ?thesis
    unfolding run by simp
qed

subsection \<open>Samples, annotations and the effect plot\<close>

text \<open>
  The docstring gives \<^verbatim>\<open>annotations\<close> as a pandas Series with one entry per sample; the
  entries are floats, a missing one being \<^verbatim>\<open>NaN\<close>, which is \<open>None\<close> here (Python's
  \<^verbatim>\<open>None\<close> object is not an entry of a numeric Series).
  \<^verbatim>\<open>any(annotations)\<close> is Python's truth test on the entries: a float is true unless it
  is zero, and \<^verbatim>\<open>NaN\<close> is true.
\<close>

definition py_any :: "real option list \<Rightarrow> bool" where
  "py_any annotations = list_ex (\<lambda>a. a \<noteq> Some 0) annotations"

text \<open>\<^verbatim>\<open>clip(lower, upper)\<close>: a value below \<open>lower\<close> becomes \<open>lower\<close>, one above \<open>upper\<close>
  becomes \<open>upper\<close>.\<close>

definition clip :: "real \<Rightarrow> real \<Rightarrow> real \<Rightarrow> real" where
  "clip lower upper x = min (max x lower) upper"

text \<open>
  pandas' \<^verbatim>\<open>min\<close>, \<^verbatim>\<open>mean\<close> and \<^verbatim>\<open>max\<close> of a series skip the missing values and are
  \<^verbatim>\<open>NaN\<close> when nothing is left. \<^verbatim>\<open>int(NaN)\<close> raises \<^verbatim>\<open>ValueError\<close>.
\<close>

definition notnull :: "real option list \<Rightarrow> real list" where
  "notnull xs = List.map_filter (\<lambda>x. x) xs"

definition series_min :: "real option list \<Rightarrow> real option" where
  "series_min xs = (if notnull xs = [] then None else Some (Min (set (notnull xs))))"

definition series_max :: "real option list \<Rightarrow> real option" where
  "series_max xs = (if notnull xs = [] then None else Some (Max (set (notnull xs))))"

definition series_mean :: "real option list \<Rightarrow> real option" where
  "series_mean xs =
     (if notnull xs = [] then None
      else Some (sum_list (notnull xs) / real (length (notnull xs))))"

definition py_int_of :: "real option \<Rightarrow> py_error + int" where
  "py_int_of x = (case x of None \<Rightarrow> Inl ValueError | Some v \<Rightarrow> Inr (py_int v))"

text \<open>The three module-level colormaps.\<close>

record 'c colormaps =
  CMAP_CONTINUOUS :: "'c colormap"
  CMAP_CATEGORICAL :: "'c colormap"
  CMAP_BINARY :: "'c colormap"

text \<open>
  What the first \<^verbatim>\<open>if\<close> of the annotation branch leaves behind: the annotation column of
  \<^verbatim>\<open>samples\<close>, the three legend values and the colormap. Python's \<^verbatim>\<open>max(a, b)\<close> and
  \<^verbatim>\<open>min(a, b)\<close> keep \<open>a\<close> when \<open>b\<close> is \<^verbatim>\<open>NaN\<close>. The standardisation
  \<^verbatim>\<open>normalize_pandas_object\<close> is defined in \<^verbatim>\<open>ccal/support.py\<close>, which is not among the
  sources: it is a parameter.
\<close>

record 'c annotation_setup =
  annotation :: "real option list"
  annotation_min :: real
  annotation_mean :: "real option"
  annotation_max :: real
  cmap :: "'c colormap"

definition setup_annotations ::
  "'c colormaps \<Rightarrow> (real option list \<Rightarrow> real option list) \<Rightarrow> string \<Rightarrow> real
     \<Rightarrow> real option list \<Rightarrow> py_error + 'c annotation_setup" where
  "setup_annotations cmaps normalize_pandas_object annotation_type std_max annotations =
     (if annotation_type = ''continuous'' then
        let ann = map (map_option (clip (- std_max) std_max)) (normalize_pandas_object annotations)
        in Inr \<lparr>annotation = ann,
                annotation_min =
                  (case series_min ann of None \<Rightarrow> - std_max | Some m \<Rightarrow> max (- std_max) m),
                annotation_mean = series_mean ann,
                annotation_max =
                  (case series_max ann of None \<Rightarrow> std_max | Some m \<Rightarrow> min std_max m),
                cmap = CMAP_CONTINUOUS cmaps\<rparr>
      else
        (case py_int_of (series_mean annotations) of
           Inl e \<Rightarrow> Inl e
         | Inr mean \<Rightarrow>
            (case py_int_of (series_max annotations) of
               Inl e \<Rightarrow> Inl e
             | Inr mx \<Rightarrow>
                 if annotation_type = ''categorical'' then
                   Inr \<lparr>annotation = annotations, annotation_min = 0,
                        annotation_mean = Some (real_of_int mean),
                        annotation_max = real_of_int mx, cmap = CMAP_CATEGORICAL cmaps\<rparr>
                 else if annotation_type = ''binary'' then
                   Inr \<lparr>annotation = annotations, annotation_min = 0,
                        annotation_mean = Some (real_of_int mean),
                        annotation_max = real_of_int mx, cmap = CMAP_BINARY cmaps\<rparr>
                 else Inl ValueError)))"

text \<open>
  The colormap called with the quotient \<open>num / den\<close> of two numpy floats: when \<open>den\<close> is
  0 the quotient is an infinity or \<^verbatim>\<open>NaN\<close>, which get the over, the under and the bad
  colour.
\<close>

definition cmap_quotient :: "'c colormap \<Rightarrow> real \<Rightarrow> real \<Rightarrow> 'c" where
  "cmap_quotient cm num den =
     (if den = 0 then
        (if num > 0 then lut cm ! (length (lut cm) - 1)
         else if num < 0 then lut cm ! 0
         else bad cm)
      else cmap_float cm (num / den))"

text \<open>The colour of one sample marker, from the sample's entry in the annotation column.\<close>

definition sample_color :: "'c \<Rightarrow> string \<Rightarrow> 'c annotation_setup \<Rightarrow> real option \<Rightarrow> py_error + 'c" where
  "sample_color sample_without_annotation_markerfacecolor annotation_type st a =
     (case a of
        None \<Rightarrow> Inr sample_without_annotation_markerfacecolor
      | Some v \<Rightarrow>
          if annotation_type = ''continuous'' then Inr (cmap_float (cmap st) v)
          else if annotation_type = ''categorical'' \<or> annotation_type = ''binary'' then
            Inr (cmap_quotient (cmap st) (v - annotation_min st)
                   (annotation_max st - annotation_min st))
          else Inl ValueError)"

fun sample_colors :: "'c \<Rightarrow> string \<Rightarrow> 'c annotation_setup \<Rightarrow> real option list \<Rightarrow> py_error + 'c list" where
  "sample_colors fallback annotation_type st [] = Inr []"
| "sample_colors fallback annotation_type st (a # as) =
     (case sample_color fallback annotation_type st a of
        Inl e \<Rightarrow> Inl e
      | Inr c \<Rightarrow>
         (case sample_colors fallback annotation_type st as of
            Inl e \<Rightarrow> Inl e
          | Inr cs \<Rightarrow> Inr (c # cs)))"

text \<open>
  The effect plot: the seaborn calls made for each \<^verbatim>\<open>effectplot_type\<close>. The
  \<^verbatim>\<open>'box'\<close> branch calls \<^verbatim>\<open>boxplot\<close> with the keyword \<^verbatim>\<open>medianpops\<close> (for
  \<^verbatim>\<open>medianprops\<close>), which is handed on to matplotlib and refused there with
  \<^verbatim>\<open>TypeError\<close>. The \<^verbatim>\<open>if\<close> has no \<^verbatim>\<open>else\<close> branch.
\<close>

datatype plot_call = Violinplot | Boxplot

definition effectplot :: "string \<Rightarrow> py_error + plot_call list" where
  "effectplot effectplot_type =
     (if effectplot_type = ''violine'' then Inr [Violinplot, Boxplot]
      else if effectplot_type = ''box'' then Inl TypeError
      else Inr [])"

text \<open>Without annotations a sample takes the colour of its state.\<close>

fun state_colors :: "(int \<rightharpoonup> 'c) \<Rightarrow> int list \<Rightarrow> py_error + 'c list" where
  "state_colors sc [] = Inr []"
| "state_colors sc (s # ss) =
     (case sc s of
        None \<Rightarrow> Inl KeyError
      | Some c \<Rightarrow> (case state_colors sc ss of Inl e \<Rightarrow> Inl e | Inr cs \<Rightarrow> Inr (c # cs)))"

text \<open>
  The statement \<^verbatim>\<open>if any(annotations): ... else: ...\<close>: the colours of the sample markers
  and the effect-plot calls, or the first exception. The dictionary \<^verbatim>\<open>states_color\<close>
  was filled before the statement; the model fills it where the statement reads it.
\<close>

definition plot_samples ::
  "'c colormaps \<Rightarrow> (real option list \<Rightarrow> real option list) \<Rightarrow> 'c \<Rightarrow> int list
     \<Rightarrow> real option list \<Rightarrow> string \<Rightarrow> real \<Rightarrow> string \<Rightarrow> py_error + ('c list \<times> plot_call list)" where
  "plot_samples cmaps normalize_pandas_object fallback states annotations annotation_type std_max
       effectplot_type =
     (if py_any annotations then
        (case setup_annotations cmaps normalize_pandas_object annotation_type std_max annotations of
           Inl e \<Rightarrow> Inl e
         | Inr st \<Rightarrow>
            (case sample_colors fallback annotation_type st (annotation st) of
               Inl e \<Rightarrow> Inl e
             | Inr cs \<Rightarrow>
                (case effectplot effectplot_type of
                   Inl e \<Rightarrow> Inl e
                 | Inr calls \<Rightarrow> Inr (cs, calls))))
      else
        (case states_color (CMAP_CATEGORICAL cmaps) states of
           Inl e \<Rightarrow> Inl e
         | Inr sc \<Rightarrow>
            (case state_colors sc states of
               Inl e \<Rightarrow> Inl e
             | Inr cs \<Rightarrow> Inr (cs, []))))"

lemma py_int_of_error: "py_int_of x = Inl e \<Longrightarrow> e = ValueError"
  by (auto simp: py_int_of_def split: option.splits)

lemma setup_annotations_unknown:
  assumes "annotation_type \<noteq> ''continuous''" and "annotation_type \<noteq> ''categorical''"
    and "annotation_type \<noteq> ''binary''"
  shows "setup_annotations cmaps normalize_pandas_object annotation_type std_max annotations
           = Inl ValueError"
  using assms
  by (auto simp: setup_annotations_def dest: py_int_of_error split: sum.splits)

text \<open>
  The colour of a sample with a continuous annotation is the colormap called with the
  clipped standardised value itself.
\<close>

lemma sample_color_continuous:
  "sample_color fallback ''continuous'' st (Some z) = Inr (cmap_float (cmap st) z)"
  by (simp add: sample_color_def)

lemma cmap_float_clipped_upper:
  assumes "1 \<le> std_max" and "lut cm \<noteq> []" and "std_max \<le> z"
  shows "cmap_float cm (clip (- std_max) std_max z) = last (lut cm)"
proof -
  let ?n = "real (length (lut cm))"
  have n: "0 < ?n"
    using assms(2) by simp
  have c: "clip (- std_max) std_max z = std_max"
    using assms(1,3) by (simp add: clip_def)
  have "1 * ?n \<le> std_max * ?n"
    using assms(1) n by (intro mult_right_mono) simp_all
  then have le: "?n \<le> std_max * ?n"
    by simp
  with n have "\<not> std_max * ?n < 0"
    by linarith
  with le show ?thesis
    unfolding c cmap_float_def Let_def
    using assms(2) by (auto simp: last_conv_nth)
qed

lemma cmap_float_clipped_lower:
  assumes "0 < std_max" and "lut cm \<noteq> []" and "z \<le> - std_max"
  shows "cmap_float cm (clip (- std_max) std_max z) = hd (lut cm)"
proof -
  have n: "0 < real (length (lut cm))"
    using assms(2) by simp
  have c: "clip (- std_max) std_max z = - std_max"
    using assms(1,3) by (simp add: clip_def)
  have "- std_max * real (length (lut cm)) < 0"
    using assms(1) n by (simp add: mult_pos_pos)
  then show ?thesis
    using assms(2) unfolding c by (simp add: cmap_float_def Let_def hd_conv_nth)
qed

text \<open>
  C4 (code bug): the marker colour is \<^verbatim>\<open>cmap(value)\<close> with the clipped z-score itself,
  and a colormap reads its argument on [0, 1]; the value is not normalised over
  [-std_max, std_max] (the categorical branch normalises, and the colorbar of the same
  plot is built with \<^verbatim>\<open>Normalize\<close>). With the blue-white-red map in three steps,
  \<^verbatim>\<open>std_max = 3\<close> and the z-scores -1, 0, 1, the markers are blue, blue, red, where the
  map normalised over [-3, 3] gives white, white, red: a sample at the mean gets the
  colour of the lower end.
\<close>

theorem continuous_annotation_color_unnormalized:
  "plot_samples
     \<lparr>CMAP_CONTINUOUS = \<lparr>lut = [''blue'', ''white'', ''red''], bad = ''wheat''\<rparr>,
      CMAP_CATEGORICAL = \<lparr>lut = [''a'', ''b'', ''c'', ''d''], bad = ''wheat''\<rparr>,
      CMAP_BINARY = \<lparr>lut = [''w'', ''k''], bad = ''wheat''\<rparr>\<rparr>
     (\<lambda>annotations. [Some (- 1), Some 0, Some 1]) ''grey'' [1, 1, 1]
     [Some 1, Some 2, Some 3] ''continuous'' 3 ''violine''
   = Inr ([''blue'', ''blue'', ''red''], [Violinplot, Boxplot]) \<and>
   map (\<lambda>z. cmap_float \<lparr>lut = [''blue'', ''white'', ''red''], bad = ''wheat''\<rparr>
               ((clip (- 3) 3 z - (- 3)) / (3 - (- 3)))) [- 1, 0, 1]
   = [''white'', ''white'', ''red'']"
  by code_simp

text \<open>
  When annotations are supplied (some annotation is true), an \<^verbatim>\<open>annotation_type\<close> other
  than \<^verbatim>\<open>'continuous'\<close>, \<^verbatim>\<open>'categorical'\<close> and \<^verbatim>\<open>'binary'\<close> raises \<^verbatim>\<open>ValueError\<close>,
  whatever the other arguments; an unrecognised \<^verbatim>\<open>effectplot_type\<close> only empties the
  list of effect-plot calls.
\<close>

lemma annotation_type_unknown:
  assumes "annotation_type \<notin> {''continuous'', ''categorical'', ''binary''}"
    and "py_any annotations"
  shows "plot_samples cmaps normalize_pandas_object fallback states annotations annotation_type
        std_max effectplot_type = Inl ValueError"
  using assms by (simp add: plot_samples_def setup_annotations_unknown)

lemma effectplot_type_unknown:
  assumes "effectplot_type \<notin> {''violine'', ''box''}"
  shows "plot_samples cmaps normalize_pandas_object fallback states annotations annotation_type
        std_max effectplot_type =
      (case plot_samples cmaps normalize_pandas_object fallback states annotations
              annotation_type std_max ''violine'' of
         Inl e \<Rightarrow> Inl e
       | Inr (cs, calls) \<Rightarrow> Inr (cs, []))"
proof -
  from assms have "effectplot effectplot_type = Inr []"
    and "effectplot ''violine'' = Inr [Violinplot, Boxplot]"
    by (simp_all add: effectplot_def)
  then show ?thesis
    by (simp add: plot_samples_def split: sum.splits)
qed

text \<open>
  C7 (code bug): an unrecognised \<^verbatim>\<open>annotation_type\<close> raises \<^verbatim>\<open>ValueError\<close>, but the
  \<^verbatim>\<open>if\<close> on \<^verbatim>\<open>effectplot_type\<close> has no \<^verbatim>\<open>else\<close>: a value other than \<^verbatim>\<open>'violine'\<close> and
  \<^verbatim>\<open>'box'\<close> raises nothing. With the categorical annotations 1, 2 and
  \<^verbatim>\<open>effectplot_type='foo'\<close> the samples are coloured, no effect plot is drawn and the
  function goes on; the same call with \<^verbatim>\<open>annotation_type='nominal'\<close> raises.
\<close>

theorem effectplot_type_unrecognized_silent:
  "plot_samples
     \<lparr>CMAP_CONTINUOUS = \<lparr>lut = [''blue'', ''white'', ''red''], bad = ''wheat''\<rparr>,
      CMAP_CATEGORICAL = \<lparr>lut = [''a'', ''b'', ''c'', ''d''], bad = ''wheat''\<rparr>,
      CMAP_BINARY = \<lparr>lut = [''w'', ''k''], bad = ''wheat''\<rparr>\<rparr>
     (\<lambda>annotations. annotations) ''grey'' [1, 1]
     [Some 1, Some 2] ''categorical'' 3 ''foo''
   = Inr ([''c'', ''d''], []) \<and>
   plot_samples
     \<lparr>CMAP_CONTINUOUS = \<lparr>lut = [''blue'', ''white'', ''red''], bad = ''wheat''\<rparr>,
      CMAP_CATEGORICAL = \<lparr>lut = [''a'', ''b'', ''c'', ''d''], bad = ''wheat''\<rparr>,
      CMAP_BINARY = \<lparr>lut = [''w'', ''k''], bad = ''wheat''\<rparr>\<rparr>
     (\<lambda>annotations. annotations) ''grey'' [1, 1]
     [Some 1, Some 2] ''nominal'' 3 ''violine''
   = Inl ValueError"
  by code_simp

end
